theory Spec2Isabelle
  imports Complex_Main "HOL-Library.Word" "HOL-Library.Sublist"
begin

unbundle bit_operations_syntax

section \<open>JavaScript primitives used by the components\<close>

text \<open>
  Text is a list of characters. \<open>String.prototype.trim\<close> removes white space at both
  ends, \<open>startsWith\<close> tests a prefix, \<open>slice(n)\<close> drops the first \<open>n\<close> characters and
  \<open>split('\n')\<close> cuts at every line feed, always returning at least one piece.
\<close>

definition js_whitespace :: "char \<Rightarrow> bool" where
  "js_whitespace c \<longleftrightarrow> c \<in> set [CHR 0x09, CHR 0x0A, CHR 0x0B, CHR 0x0C, CHR 0x0D, CHR 0x20, CHR 0xA0]"

definition trim :: "string \<Rightarrow> string" where
  "trim s = rev (dropWhile js_whitespace (rev (dropWhile js_whitespace s)))"

definition startsWith :: "string \<Rightarrow> string \<Rightarrow> bool" where
  "startsWith s p \<longleftrightarrow> take (length p) s = p"

fun split_nl :: "string \<Rightarrow> string list" where
  "split_nl [] = [[]]"
| "split_nl (c # cs) =
     (if c = CHR 0x0A then [] # split_nl cs
      else (c # hd (split_nl cs)) # tl (split_nl cs))"

text \<open>
  A template literal prints a number in decimal; \<open>indexOf\<close> may return \<open>-1\<close>.
\<close>

fun nat_to_string :: "nat \<Rightarrow> string" where
  "nat_to_string n =
     (if n < 10 then [char_of (48 + n)]
      else nat_to_string (n div 10) @ [char_of (48 + n mod 10)])"

declare nat_to_string.simps [simp del]

definition int_to_string :: "int \<Rightarrow> string" where
  "int_to_string i = (if i < 0 then CHR ''-'' # nat_to_string (nat (- i)) else nat_to_string (nat i))"

text \<open>Truthiness of an optional string: \<open>undefined\<close> and the empty string are falsy.\<close>

definition truthy_str :: "string option \<Rightarrow> bool" where
  "truthy_str s = (case s of None \<Rightarrow> False | Some t \<Rightarrow> t \<noteq> [])"

text \<open>Truthiness of an optional number: \<open>null\<close>, \<open>undefined\<close> and \<open>0\<close> are falsy.\<close>

definition truthy_num :: "int option \<Rightarrow> bool" where
  "truthy_num n = (case n of None \<Rightarrow> False | Some k \<Rightarrow> k \<noteq> 0)"

section \<open>Signal configurations (AiSignalChatModal.tsx)\<close>

text \<open>
  The interface \<open>SignalConfig\<close>. The configurations arrive as JSON, so every field of a
  condition may be missing, which is what the validity checks of the cards test;
  \<open>None\<close> is \<open>undefined\<close>. JSON numbers are rationals here: the code only tests
  whether they are present. A missing \<open>name\<close> behaves as the empty name in every
  place that reads it (\<open>config.name || ...\<close>).
\<close>

datatype config_type = Signal | Pool

datatype pool_logic = LogicAND | LogicOR

record PoolSignal =
  metric :: "string option"
  operator :: "string option"
  threshold :: "rat option"
  time_window :: "string option"

record TriggerCondition = PoolSignal +
  direction :: "string option"
  ratio_threshold :: "rat option"
  volume_threshold :: "rat option"

record SignalConfig =
  name :: string
  symbol :: string
  description :: "string option"
  cfg_type :: "config_type option"
  trigger_condition :: "TriggerCondition option"
  logic :: "pool_logic option"
  signals :: "PoolSignal list option"













section \<open>Creation state of the cards (SignalCardsPanel)\<close>

text \<open>
  \<open>configs.indexOf(config)\<close> compares object identity, so a configuration in the list
  is a pair of its reference and its fields. The list is built from freshly parsed
  JSON, where every element is an object of its own.
\<close>

type_synonym config_obj = "nat \<times> SignalConfig"

fun indexOf_from :: "config_obj list \<Rightarrow> config_obj \<Rightarrow> int \<Rightarrow> int" where
  "indexOf_from [] c i = -1"
| "indexOf_from (x # xs) c i = (if fst x = fst c then i else indexOf_from xs c (i + 1))"

definition indexOf :: "config_obj list \<Rightarrow> config_obj \<Rightarrow> int" where
  "indexOf configs c = indexOf_from configs c 0"

text \<open>Line 589, the key a card is rendered with: \<open>config.name || `signal-${idx}`\<close>.\<close>

definition card_key :: "config_obj \<Rightarrow> nat \<Rightarrow> string" where
  "card_key config idx =
     (if name (snd config) \<noteq> [] then name (snd config) else ''signal-'' @ nat_to_string idx)"

text \<open>Line 559, the key \<open>handleCreate\<close> computes for the same card.\<close>

definition handleCreate_key :: "config_obj list \<Rightarrow> config_obj \<Rightarrow> string" where
  "handleCreate_key configs config =
     (if name (snd config) \<noteq> [] then name (snd config)
      else ''signal-'' @ int_to_string (indexOf configs config))"

record creation_state =
  creatingSignals :: "string set"
  createdSignals :: "string set"

text \<open>
  The promise returned by \<open>onCreate\<close> or \<open>onCreatePool\<close> resolves to a boolean or
  rejects. \<open>handleCreate\<close> runs in two parts around the \<open>await\<close>: the part before it
  marks the key as being created, the part after it records a success and, in the
  \<open>finally\<close> block, removes the mark; a rejection leaves \<open>handleCreate\<close> through the
  \<open>finally\<close> block as well.
\<close>

datatype create_outcome = Resolved bool | Rejected

definition handleCreate_begin :: "string \<Rightarrow> creation_state \<Rightarrow> creation_state" where
  "handleCreate_begin signalKey st = st\<lparr>creatingSignals := insert signalKey (creatingSignals st)\<rparr>"

definition handleCreate_settle :: "string \<Rightarrow> create_outcome \<Rightarrow> creation_state \<Rightarrow> creation_state" where
  "handleCreate_settle signalKey outcome st =
     (let st1 = (case outcome of
                   Resolved success \<Rightarrow>
                     if success then st\<lparr>createdSignals := insert signalKey (createdSignals st)\<rparr> else st
                 | Rejected \<Rightarrow> st)
      in st1\<lparr>creatingSignals := creatingSignals st1 - {signalKey}\<rparr>)"

definition handleCreate ::
  "(SignalConfig \<Rightarrow> create_outcome) \<Rightarrow> (SignalConfig \<Rightarrow> create_outcome) \<Rightarrow>
   config_obj list \<Rightarrow> config_obj \<Rightarrow> bool \<Rightarrow> creation_state \<Rightarrow> creation_state" where
  "handleCreate onCreate onCreatePool configs config pool st =
     (let signalKey = handleCreate_key configs config;
          st1 = handleCreate_begin signalKey st;
          outcome = (if pool then onCreatePool (snd config) else onCreate (snd config))
      in handleCreate_settle signalKey outcome st1)"

text \<open>What a card shows: lines 598, 599, 609 and 610.\<close>

definition isCreating :: "creation_state \<Rightarrow> config_obj \<Rightarrow> nat \<Rightarrow> bool" where
  "isCreating st config idx \<longleftrightarrow> card_key config idx \<in> creatingSignals st"

definition isCreated :: "creation_state \<Rightarrow> config_obj \<Rightarrow> nat \<Rightarrow> bool" where
  "isCreated st config idx \<longleftrightarrow> card_key config idx \<in> createdSignals st"

section \<open>The trade list (MobileTradesSection.tsx)\<close>

text \<open>
  Modelled from the spec: the type \<open>ArenaTrade\<close> is imported from \<open>@/lib/api\<close>, which is
  not among the source files. The records have the attributes the specification lists
  for a trade and its related orders, under the field names the component reads.
  Prices and quantities are only formatted, so they stay rationals.
\<close>

record RelatedOrder =
  ro_type :: string
  ro_price :: "rat option"
  ro_quantity :: "rat option"

record ArenaTrade =
  trade_id :: int
  trade_time :: "string option"
  account_name :: string
  trade_symbol :: string
  side :: string
  price :: "rat option"
  quantity :: "rat option"
  notional :: "rat option"
  signal_trigger_id :: "int option"
  prompt_template_name :: "string option"
  related_orders :: "RelatedOrder list option"

datatype account_filter = AllAccounts | Account int

text \<open>\<open>TradeCard\<close>: the parts of a card that are computed from the trade.\<close>

record trade_card =
  card_trade :: ArenaTrade
  shows_account :: bool
  sideStyle :: string
  shows_trigger_row :: bool
  shows_related :: bool

definition TradeCard :: "ArenaTrade \<Rightarrow> account_filter \<Rightarrow> trade_card" where
  "TradeCard trade selectedAccount =
     \<lparr>card_trade = trade,
      shows_account = (selectedAccount = AllAccounts),
      sideStyle =
        (if side trade = ''BUY'' then ''bg-emerald-100 text-emerald-700''
         else if side trade = ''SELL'' then ''bg-red-100 text-red-700''
         else if side trade = ''CLOSE'' then ''bg-blue-100 text-blue-700''
         else ''bg-gray-100 text-gray-700''),
      shows_trigger_row =
        (truthy_num (signal_trigger_id trade) \<or> truthy_str (prompt_template_name trade)),
      shows_related =
        (case related_orders trade of None \<Rightarrow> False | Some os \<Rightarrow> length os > 0)\<rparr>"

datatype trades_view = Spinner | NoTrades | Cards "trade_card list"

text \<open>\<open>TradesSection\<close>, lines 65 to 75.\<close>

definition TradesSection :: "ArenaTrade list \<Rightarrow> account_filter \<Rightarrow> bool \<Rightarrow> trades_view" where
  "TradesSection trades selectedAccount loading =
     (if loading then Spinner
      else if length trades = 0 then NoTrades
      else Cards (map (\<lambda>trade. TradeCard trade selectedAccount) (take 20 trades)))"

definition shown_trades :: "trades_view \<Rightarrow> ArenaTrade list" where
  "shown_trades v = (case v of Cards cs \<Rightarrow> map card_trade cs | _ \<Rightarrow> [])"

section \<open>The chat session (AiSignalChatModal.tsx)\<close>

subsection \<open>Messages and event payloads\<close>

datatype role = User | Assistant

datatype entry_kind = Reasoning | ToolCall | ToolResult

text \<open>A \<open>Record<string, unknown>\<close> that is only displayed: field names with the JSON text of their values.\<close>

type_synonym json_record = "(string \<times> string) list"

record AnalysisEntry =
  entry_type :: entry_kind
  entry_content :: "string option"
  entry_name :: "string option"
  entry_arguments :: "json_record option"
  entry_result :: "json_record option"

text \<open>
  The interface \<open>Message\<close>; \<open>None\<close> is \<open>undefined\<close> (or \<open>null\<close> for
  \<open>signal_configs\<close>). The content is optional as well, because a \<open>content\<close> event
  whose payload has no \<open>content\<close> field stores \<open>undefined\<close> there.
\<close>

record Message =
  msg_id :: int
  role :: role
  content :: "string option"
  signal_configs :: "SignalConfig list option"
  isStreaming :: "bool option"
  statusText :: "string option"
  analysisLog :: "AnalysisEntry list option"

text \<open>
  The payload of a \<open>data:\<close> line is the object that \<open>JSON.parse\<close> returns, read
  through the casts of \<open>handleSSEEvent\<close>: each field the handler reads is either
  missing or has the type the cast names.
\<close>

record payload =
  data_message :: "string option"
  data_content :: "string option"
  data_config :: "SignalConfig option"
  data_signal_configs :: "SignalConfig list option"
  data_conversation_id :: "int option"
  data_message_id :: "int option"
  data_name :: "string option"
  data_arguments :: "json_record option"
  data_result :: "json_record option"

text \<open>The argument of the \<open>onUpdate\<close> callback.\<close>

record updates =
  upd_content :: "string option"
  upd_signalConfigs :: "SignalConfig list option"
  upd_conversationId :: "int option"
  upd_messageId :: "int option"

definition no_updates :: updates where
  "no_updates = \<lparr>upd_content = None, upd_signalConfigs = None, upd_conversationId = None, upd_messageId = None\<rparr>"

subsection \<open>Component state\<close>

text \<open>
  The state hooks of the modal. \<open>toasts\<close> lists the calls of \<open>toast.error\<close> in order
  and \<open>conversation_loads\<close> counts the calls of \<open>loadConversations\<close>.
\<close>

record session =
  selectedAccountId :: "int option"
  currentConversationId :: "int option"
  messages :: "Message list"
  userInput :: string
  loading :: bool
  allSignalConfigs :: "SignalConfig list"
  toasts :: "string list"
  conversation_loads :: nat

text \<open>The local variables of one run of \<open>sendMessage\<close>, with the state of its \<open>TextDecoder\<close>.\<close>

record 'd stream_locals =
  tempUserMsgId :: int
  tempAssistantMsgId :: int
  sentConversationId :: "int option"
  decoder :: 'd
  buffer :: string
  finalContent :: string
  finalSignalConfigs :: "SignalConfig list"
  finalConversationId :: "int option"
  finalMessageId :: "int option"
  currentEventType :: string

text \<open>\<open>setMessages(prev => prev.map(m => m.id === msgId ? f(m) : m))\<close>.\<close>

definition update_message :: "int \<Rightarrow> (Message \<Rightarrow> Message) \<Rightarrow> session \<Rightarrow> session" where
  "update_message msgId f st =
     st\<lparr>messages := map (\<lambda>m. if msg_id m = msgId then f m else m) (messages st)\<rparr>"

definition toast_error :: "string \<Rightarrow> session \<Rightarrow> session" where
  "toast_error text st = st\<lparr>toasts := toasts st @ [text]\<rparr>"

text \<open>A template literal prints a missing value as \<open>undefined\<close>.\<close>

definition template_str :: "string option \<Rightarrow> string" where
  "template_str s = (case s of None \<Rightarrow> ''undefined'' | Some t \<Rightarrow> t)"

definition append_entry :: "AnalysisEntry \<Rightarrow> Message \<Rightarrow> AnalysisEntry list option" where
  "append_entry entry m = Some ((case analysisLog m of None \<Rightarrow> [] | Some es \<Rightarrow> es) @ [entry])"

subsection \<open>Dispatch of one event\<close>

text \<open>
  \<open>handleSSEEvent\<close>, lines 259 to 328, with its branches in the order of the source.
  \<open>onUpdate\<close> acts on the variables its closure captures, the first component of the
  state here; the second component is the state of the modal.
\<close>

definition handleSSEEvent ::
  "string \<Rightarrow> payload \<Rightarrow> int \<Rightarrow> (updates \<Rightarrow> 'l \<Rightarrow> 'l) \<Rightarrow> 'l \<times> session \<Rightarrow> 'l \<times> session" where
  "handleSSEEvent eventType data msgId onUpdate s =
     (case s of (loc, st) \<Rightarrow>
      if eventType = ''status'' then
        (loc, update_message msgId (\<lambda>m. m\<lparr>statusText := data_message data\<rparr>) st)
      else if eventType = ''reasoning'' then
        (let reasoning = (case data_content data of None \<Rightarrow> [] | Some c \<Rightarrow> c);
             entry = \<lparr>entry_type = Reasoning, entry_content = Some reasoning, entry_name = None,
                      entry_arguments = None, entry_result = None\<rparr>
         in (loc, update_message msgId
                    (\<lambda>m. m\<lparr>statusText := Some (''Thinking: '' @ take 80 reasoning @ ''...''),
                           analysisLog := append_entry entry m\<rparr>) st))
      else if eventType = ''content'' then
        (onUpdate (no_updates\<lparr>upd_content := data_content data\<rparr>) loc,
         update_message msgId (\<lambda>m. m\<lparr>content := data_content data, statusText := None\<rparr>) st)
      else if eventType = ''signal_config'' then
        (case data_config data of
           None \<Rightarrow> (loc, st)
         | Some config \<Rightarrow> (onUpdate (no_updates\<lparr>upd_signalConfigs := Some [config]\<rparr>) loc, st))
      else if eventType = ''done'' then
        (onUpdate \<lparr>upd_content = data_content data,
                   upd_signalConfigs = data_signal_configs data,
                   upd_conversationId = data_conversation_id data,
                   upd_messageId = data_message_id data\<rparr> loc, st)
      else if eventType = ''error'' then
        (loc, toast_error (if truthy_str (data_message data) then the (data_message data)
                           else ''AI generation failed'') st)
      else if eventType = ''tool_call'' then
        (let entry = \<lparr>entry_type = ToolCall, entry_content = None, entry_name = data_name data,
                      entry_arguments = data_arguments data, entry_result = None\<rparr>
         in (loc, update_message msgId
                    (\<lambda>m. m\<lparr>statusText := Some (''Calling '' @ template_str (data_name data) @ ''...''),
                           analysisLog := append_entry entry m\<rparr>) st))
      else if eventType = ''tool_result'' then
        (let entry = \<lparr>entry_type = ToolResult, entry_content = None, entry_name = data_name data,
                      entry_arguments = None, entry_result = data_result data\<rparr>
         in (loc, update_message msgId
                    (\<lambda>m. m\<lparr>statusText := Some (''Got result from '' @ template_str (data_name data)),
                           analysisLog := append_entry entry m\<rparr>) st))
      else (loc, st))"

text \<open>The callback that \<open>sendMessage\<close> passes, lines 225 to 230.\<close>

definition onUpdate :: "updates \<Rightarrow> 'd stream_locals \<Rightarrow> 'd stream_locals" where
  "onUpdate upd loc =
     (let l1 = (case upd_content upd of None \<Rightarrow> loc | Some c \<Rightarrow> loc\<lparr>finalContent := c\<rparr>);
          l2 = (case upd_signalConfigs upd of None \<Rightarrow> l1 | Some cs \<Rightarrow> l1\<lparr>finalSignalConfigs := cs\<rparr>);
          l3 = (if truthy_num (upd_conversationId upd)
                then l2\<lparr>finalConversationId := upd_conversationId upd\<rparr> else l2);
          l4 = (if truthy_num (upd_messageId upd)
                then l3\<lparr>finalMessageId := upd_messageId upd\<rparr> else l3)
      in l4)"

subsection \<open>The stream-decode loop of sendMessage\<close>

text \<open>
  Two functions of the runtime are parameters of the model. \<open>JSON.parse\<close> maps the text
  of a \<open>data:\<close> line to its payload, or throws (\<open>None\<close>). A \<open>TextDecoder\<close> used with
  \<open>{ stream: true }\<close> consumes the bytes of each chunk one by one and keeps the bytes
  of an unfinished character in its state until the next call.
\<close>

type_synonym byte = "8 word"

type_synonym json_parse = "string \<Rightarrow> payload option"

record 'd TextDecoder =
  dec_init :: 'd
  dec_step :: "'d \<Rightarrow> byte \<Rightarrow> 'd \<times> string"

fun decode :: "('d \<Rightarrow> byte \<Rightarrow> 'd \<times> string) \<Rightarrow> 'd \<Rightarrow> byte list \<Rightarrow> 'd \<times> string" where
  "decode step d [] = (d, [])"
| "decode step d (b # bs) =
     (case step d b of (d1, out1) \<Rightarrow>
        (case decode step d1 bs of (d2, out2) \<Rightarrow> (d2, out1 @ out2)))"

text \<open>The body of the \<open>for\<close> loop, lines 217 to 234; the \<open>catch {}\<close> gives the branch \<open>None\<close>.\<close>

definition process_line ::
  "json_parse \<Rightarrow> 'd stream_locals \<times> session \<Rightarrow> string \<Rightarrow> 'd stream_locals \<times> session" where
  "process_line parse s line =
     (case s of (loc, st) \<Rightarrow>
      if startsWith line ''event: '' then (loc\<lparr>currentEventType := trim (drop 7 line)\<rparr>, st)
      else if startsWith line ''data: '' then
        (case parse (drop 6 line) of
           None \<Rightarrow> (loc\<lparr>currentEventType := []\<rparr>, st)
         | Some data \<Rightarrow>
             (case handleSSEEvent (currentEventType loc) data (tempAssistantMsgId loc) onUpdate (loc, st) of
                (loc', st') \<Rightarrow> (loc'\<lparr>currentEventType := []\<rparr>, st')))
      else (loc, st))"

text \<open>One turn of the \<open>while\<close> loop for a chunk that \<open>reader.read()\<close> delivered, lines 213 to 234.\<close>

definition read_chunk ::
  "'d TextDecoder \<Rightarrow> json_parse \<Rightarrow> 'd stream_locals \<times> session \<Rightarrow> byte list \<Rightarrow> 'd stream_locals \<times> session" where
  "read_chunk td parse s v =
     (case s of (loc, st) \<Rightarrow>
      (case decode (dec_step td) (decoder loc) v of (d', text) \<Rightarrow>
         (let lines = split_nl (buffer loc @ text)
          in foldl (process_line parse) (loc\<lparr>decoder := d', buffer := last lines\<rparr>, st) (butlast lines))))"

text \<open>The decode loop over the chunks of a stream, in arrival order.\<close>

definition decode_loop ::
  "'d TextDecoder \<Rightarrow> json_parse \<Rightarrow> 'd stream_locals \<times> session \<Rightarrow> byte list list \<Rightarrow> 'd stream_locals \<times> session" where
  "decode_loop td parse s chunks = foldl (read_chunk td parse) s chunks"

text \<open>Lines 237 to 249, after the loop.\<close>

definition finalize :: "'d stream_locals \<times> session \<Rightarrow> session" where
  "finalize s =
     (case s of (loc, st) \<Rightarrow>
      (let st1 = update_message (tempAssistantMsgId loc)
                   (\<lambda>m. m\<lparr>content := Some (finalContent loc),
                          signal_configs := Some (finalSignalConfigs loc),
                          isStreaming := Some False,
                          statusText := None\<rparr>) st;
           st2 = (if length (finalSignalConfigs loc) > 0
                  then st1\<lparr>allSignalConfigs := allSignalConfigs st1 @ finalSignalConfigs loc\<rparr>
                  else st1);
           st3 = (if \<not> truthy_num (sentConversationId loc) \<and> truthy_num (finalConversationId loc)
                  then st2\<lparr>currentConversationId := finalConversationId loc,
                          conversation_loads := Suc (conversation_loads st2)\<rparr>
                  else st2)
       in st3))"

text \<open>The \<open>catch\<close> block, lines 250 to 253, and the \<open>finally\<close> block.\<close>

definition on_failure :: "'d stream_locals \<times> session \<Rightarrow> session" where
  "on_failure s =
     (case s of (loc, st) \<Rightarrow>
      (let st1 = toast_error ''Failed to send message'' st
       in st1\<lparr>messages := filter (\<lambda>m. msg_id m \<noteq> tempUserMsgId loc \<and> msg_id m \<noteq> tempAssistantMsgId loc)
                               (messages st1)\<rparr>))"

definition finally_block :: "session \<Rightarrow> session" where
  "finally_block st = st\<lparr>loading := False\<rparr>"

text \<open>
  What \<open>reader.read()\<close> returns, one element per call: a chunk, the end of the stream,
  or a rejection. A run whose reads are used up before the stream ends is still waiting.
\<close>

datatype read_result = Chunk "byte list" | Done | ReadError

datatype 'd run = Pending "'d stream_locals" session | Settled session

fun read_loop ::
  "'d TextDecoder \<Rightarrow> json_parse \<Rightarrow> 'd stream_locals \<times> session \<Rightarrow> read_result list \<Rightarrow> 'd run" where
  "read_loop td parse s [] = Pending (fst s) (snd s)"
| "read_loop td parse s (Chunk v # rs) = read_loop td parse (read_chunk td parse s v) rs"
| "read_loop td parse s (Done # rs) = Settled (finally_block (finalize s))"
| "read_loop td parse s (ReadError # rs) = Settled (finally_block (on_failure s))"

text \<open>
  Lines 170 to 208: the two temporary messages and the initial values of the local
  variables; \<open>now\<close> is the value of \<open>Date.now()\<close>.
\<close>

definition sendMessage_begin :: "'d TextDecoder \<Rightarrow> int \<Rightarrow> session \<Rightarrow> 'd stream_locals \<times> session" where
  "sendMessage_begin td now st =
     (let userMessage = trim (userInput st);
          tempUserMsg = \<lparr>msg_id = now, role = User, content = Some userMessage, signal_configs = None,
                         isStreaming = None, statusText = None, analysisLog = None\<rparr>;
          tempAssistantMsg = \<lparr>msg_id = now + 1, role = Assistant, content = Some [], signal_configs = None,
                              isStreaming = Some True, statusText = Some ''Connecting...'',
                              analysisLog = None\<rparr>
      in (\<lparr>tempUserMsgId = now, tempAssistantMsgId = now + 1,
            sentConversationId = currentConversationId st,
            decoder = dec_init td, buffer = [], finalContent = [], finalSignalConfigs = [],
            finalConversationId = None, finalMessageId = None, currentEventType = []\<rparr>,
          st\<lparr>userInput := [], loading := True,
             messages := messages st @ [tempUserMsg, tempAssistantMsg]\<rparr>))"

text \<open>The outcome of \<open>fetch\<close>: a rejection, or a response with its \<open>ok\<close> flag and its body.\<close>

datatype fetch_result = FetchRejected | Response bool "read_result list option"

definition sendMessage :: "'d TextDecoder \<Rightarrow> json_parse \<Rightarrow> int \<Rightarrow> fetch_result \<Rightarrow> session \<Rightarrow> 'd run" where
  "sendMessage td parse now fetched st =
     (if trim (userInput st) = [] \<or> \<not> truthy_num (selectedAccountId st) then Settled st
      else
        (let s1 = sendMessage_begin td now st
         in (case fetched of
               FetchRejected \<Rightarrow> Settled (finally_block (on_failure s1))
             | Response ok body \<Rightarrow>
                 if \<not> ok then Settled (finally_block (on_failure s1))
                 else (case body of
                         None \<Rightarrow> Settled (finally_block (on_failure s1))
                       | Some reads \<Rightarrow> read_loop td parse s1 reads))))"

text \<open>A fetch outcome that makes \<open>sendMessage\<close> enter its \<open>catch\<close> block.\<close>

fun reads_fail :: "read_result list \<Rightarrow> bool" where
  "reads_fail [] = False"
| "reads_fail (Chunk v # rs) = reads_fail rs"
| "reads_fail (Done # rs) = False"
| "reads_fail (ReadError # rs) = True"

definition request_fails :: "fetch_result \<Rightarrow> bool" where
  "request_fails fetched =
     (case fetched of
        FetchRejected \<Rightarrow> True
      | Response ok body \<Rightarrow> \<not> ok \<or> (case body of None \<Rightarrow> True | Some reads \<Rightarrow> reads_fail reads))"

subsection \<open>The other actions of the modal\<close>

definition initial_session :: session where
  "initial_session =
     \<lparr>selectedAccountId = None, currentConversationId = None, messages = [], userInput = [],
      loading = False, allSignalConfigs = [], toasts = [], conversation_loads = 0\<rparr>"

definition startNewConversation :: "session \<Rightarrow> session" where
  "startNewConversation st = st\<lparr>currentConversationId := None, messages := [], allSignalConfigs := []\<rparr>"

text \<open>
  \<open>loadMessages\<close>, lines 152 to 161, for an \<open>ok\<close> response whose JSON has the given
  \<open>messages\<close> field. Without the field \<open>forEach\<close> throws after the messages were set.
\<close>

definition loadMessages :: "Message list option \<Rightarrow> session \<Rightarrow> session" where
  "loadMessages loaded st =
     (case loaded of
        None \<Rightarrow> st\<lparr>messages := []\<rparr>
      | Some ms \<Rightarrow>
          st\<lparr>messages := ms,
             allSignalConfigs :=
               concat (map (\<lambda>m. if role m = Assistant
                                 then (case signal_configs m of None \<Rightarrow> [] | Some cs \<Rightarrow> cs)
                                 else []) ms)\<rparr>)"

text \<open>
  The states the modal can reach, with the run of \<open>sendMessage\<close> in flight, if any.
  The send button and the text area are disabled while \<open>loading\<close> is set, which is
  the premise of \<open>send\<close>. The server stores messages without the fields that exist
  only during streaming, which is the premise of \<open>messages_loaded\<close>.
\<close>

inductive reachable ::
  "'d TextDecoder \<Rightarrow> json_parse \<Rightarrow> session \<times> 'd stream_locals option \<Rightarrow> bool"
  for td :: "'d TextDecoder" and parse :: json_parse where
  init: "reachable td parse (initial_session, None)"
| select_account: "reachable td parse (st, fl) \<Longrightarrow> reachable td parse (st\<lparr>selectedAccountId := Some a\<rparr>, fl)"
| type_input: "reachable td parse (st, fl) \<Longrightarrow> \<not> loading st \<Longrightarrow> reachable td parse (st\<lparr>userInput := text\<rparr>, fl)"
| select_conversation:
    "reachable td parse (st, fl) \<Longrightarrow> reachable td parse (st\<lparr>currentConversationId := Some c\<rparr>, fl)"
| messages_loaded:
    "reachable td parse (st, fl) \<Longrightarrow> list_all (\<lambda>m. isStreaming m = None) ms \<Longrightarrow>
     reachable td parse (loadMessages (Some ms) st, fl)"
| messages_missing: "reachable td parse (st, fl) \<Longrightarrow> reachable td parse (loadMessages None st, fl)"
| new_conversation: "reachable td parse (st, fl) \<Longrightarrow> reachable td parse (startNewConversation st, fl)"
| send:
    "reachable td parse (st, fl) \<Longrightarrow> \<not> loading st \<Longrightarrow>
     trim (userInput st) \<noteq> [] \<Longrightarrow> truthy_num (selectedAccountId st) \<Longrightarrow>
     sendMessage_begin td now st = (loc, st') \<Longrightarrow> reachable td parse (st', Some loc)"
| chunk:
    "reachable td parse (st, Some loc) \<Longrightarrow> read_chunk td parse (loc, st) v = (loc', st') \<Longrightarrow>
     reachable td parse (st', Some loc')"
| stream_end:
    "reachable td parse (st, Some loc) \<Longrightarrow> reachable td parse (finally_block (finalize (loc, st)), None)"
| failure:
    "reachable td parse (st, Some loc) \<Longrightarrow> reachable td parse (finally_block (on_failure (loc, st)), None)"

definition streaming :: "Message \<Rightarrow> bool" where
  "streaming m \<longleftrightarrow> role m = Assistant \<and> isStreaming m = Some True"

section \<open>Sample data\<close>

text \<open>Configurations on which the definitions are evaluated.\<close>

definition sample_condition :: TriggerCondition where
  "sample_condition =
     \<lparr>metric = Some ''oi'', operator = Some ''greater_than'', threshold = Some 1,
      time_window = None, direction = None, ratio_threshold = None, volume_threshold = None\<rparr>"

definition sample_signal :: "string \<Rightarrow> SignalConfig" where
  "sample_signal nm =
     \<lparr>name = nm, symbol = ''BTC'', description = None, cfg_type = Some Signal,
      trigger_condition = Some sample_condition, logic = None, signals = None\<rparr>"




definition no_creations :: creation_state where
  "no_creations = \<lparr>creatingSignals = {}, createdSignals = {}\<rparr>"

definition always_succeeds :: "SignalConfig \<Rightarrow> create_outcome" where
  "always_succeeds config = Resolved True"

definition same_name_configs :: "config_obj list" where
  "same_name_configs = [(0, sample_signal ''Alpha''), (1, (sample_signal ''Alpha'')\<lparr>symbol := ''ETH''\<rparr>)]"

definition two_named_configs :: "config_obj list" where
  "two_named_configs = [(0, sample_signal ''Alpha''), (1, sample_signal ''Beta'')]"

section \<open>Event streams\<close>

text \<open>
  Modelled from the spec: the server that writes the stream is not among the source
  files. A record is a line with the event type, a line with the JSON text of the
  payload and an empty line; every line ends with a line feed.
\<close>

definition sse_record :: "string \<Rightarrow> string \<Rightarrow> string list" where
  "sse_record eventType json = [''event: '' @ eventType, ''data: '' @ json, []]"

definition join_lines :: "string list \<Rightarrow> string" where
  "join_lines ls = concat (map (\<lambda>l. l @ [CHR 0x0A]) ls)"

definition newline_free :: "string \<Rightarrow> bool" where
  "newline_free l \<longleftrightarrow> CHR 0x0A \<notin> set l"

text \<open>A \<open>data:\<close> text that parses to a payload with a \<open>config\<close> field, and that configuration.\<close>

definition signal_config_payload :: "json_parse \<Rightarrow> string \<Rightarrow> bool" where
  "signal_config_payload parse d = (case parse d of None \<Rightarrow> False | Some p \<Rightarrow> data_config p \<noteq> None)"

definition config_of :: "json_parse \<Rightarrow> string \<Rightarrow> SignalConfig" where
  "config_of parse d = the (data_config (the (parse d)))"

text \<open>Whether a run of \<open>sendMessage\<close> has returned, and the state of the modal it has reached.\<close>

definition is_settled :: "'d run \<Rightarrow> bool" where
  "is_settled r = (case r of Settled st \<Rightarrow> True | Pending loc st \<Rightarrow> False)"

definition outcome_state :: "'d run \<Rightarrow> session" where
  "outcome_state r = (case r of Settled st \<Rightarrow> st | Pending loc st \<Rightarrow> st)"

section \<open>Sample streams\<close>

text \<open>
  An instance of the two runtime parameters on which the model is evaluated.
  \<open>sample_parse\<close> is \<open>JSON.parse\<close> followed by the casts on the payload texts listed
  here and rejects every other text. \<open>utf8_low\<close> is the UTF-8 decoder on the code
  points below 256, which are the characters of this model: one byte below 128, or a
  lead byte \<open>0xC2\<close> or \<open>0xC3\<close> that waits for its continuation byte, also across
  two chunks; it prints a question mark where the runtime prints U+FFFD.
\<close>

definition empty_payload :: payload where
  "empty_payload =
     \<lparr>data_message = None, data_content = None, data_config = None, data_signal_configs = None,
      data_conversation_id = None, data_message_id = None, data_name = None,
      data_arguments = None, data_result = None\<rparr>"

definition alpha_json :: string where
  \<open>alpha_json = ''{"name":"Alpha","symbol":"BTC","_type":"signal","trigger_condition":{"metric":"oi","operator":"greater_than","threshold":1}}''\<close>

definition beta_json :: string where
  \<open>beta_json = ''{"name":"Beta","symbol":"BTC","_type":"signal","trigger_condition":{"metric":"oi","operator":"greater_than","threshold":1}}''\<close>

definition status_json :: string where
  \<open>status_json = ''{"message":"A"}''\<close>

definition content_json :: string where
  \<open>content_json = ''{"content":"hello"}''\<close>

definition done_json :: string where
  \<open>done_json = ''{"content":"hello","signal_configs":['' @ alpha_json @ ''],"conversation_id":7,"message_id":42}''\<close>

definition alpha_event_json :: string where
  \<open>alpha_event_json = ''{"config":'' @ alpha_json @ ''}''\<close>

definition beta_event_json :: string where
  \<open>beta_event_json = ''{"config":'' @ beta_json @ ''}''\<close>

definition sample_payloads :: "(string \<times> payload) list" where
  "sample_payloads =
     [(status_json, empty_payload\<lparr>data_message := Some ''A''\<rparr>),
      (content_json, empty_payload\<lparr>data_content := Some ''hello''\<rparr>),
      (done_json,
       empty_payload\<lparr>data_content := Some ''hello'', data_signal_configs := Some [sample_signal ''Alpha''],
                      data_conversation_id := Some 7, data_message_id := Some 42\<rparr>),
      (alpha_event_json, empty_payload\<lparr>data_config := Some (sample_signal ''Alpha'')\<rparr>),
      (beta_event_json, empty_payload\<lparr>data_config := Some (sample_signal ''Beta'')\<rparr>)]"

definition sample_parse :: json_parse where
  "sample_parse text = map_of sample_payloads text"

definition utf8_low_step :: "byte option \<Rightarrow> byte \<Rightarrow> byte option \<times> string" where
  "utf8_low_step pending b =
     (case pending of
        None \<Rightarrow>
          if b < 0x80 then (None, [char_of (unat b)])
          else if b = 0xC2 \<or> b = 0xC3 then (Some b, [])
          else (None, ''?'')
      | Some lead \<Rightarrow>
          if 0x80 \<le> b \<and> b < 0xC0
          then (None, [char_of (unat (push_bit 6 (lead AND 3) OR (b AND 0x3F)))])
          else (None, ''?''))"

definition utf8_low :: "byte option TextDecoder" where
  "utf8_low = \<lparr>dec_init = None, dec_step = utf8_low_step\<rparr>"

definition ascii_bytes :: "string \<Rightarrow> byte list" where
  "ascii_bytes s = map of_char s"

definition ascii :: "string \<Rightarrow> bool" where
  "ascii s = list_all (\<lambda>c. of_char c < (128::nat)) s"

definition ready_session :: session where
  "ready_session = initial_session\<lparr>selectedAccountId := Some 1, userInput := ''oi signal ''\<rparr>"

definition example_lines :: "string list" where
  "example_lines = sse_record ''status'' status_json @ sse_record ''content'' content_json
                   @ sse_record ''done'' done_json"

definition example_chunks :: "byte list list" where
  "example_chunks = [take 40 (ascii_bytes (join_lines example_lines)),
                     drop 40 (ascii_bytes (join_lines example_lines))]"

text \<open>The line \<open>data: \<close> and a two-byte character, cut between the two bytes.\<close>

definition split_chunks :: "byte list list" where
  "split_chunks = [ascii_bytes ''data: '' @ [0xC3], [0xA9, 0x0A]]"

definition two_configs_chunks :: "byte list list" where
  "two_configs_chunks =
     [ascii_bytes (join_lines (concat (map (sse_record ''signal_config'') [alpha_event_json, beta_event_json])))]"

text \<open>A session with one earlier message, and a stream that breaks after its first chunk.\<close>

definition session_with_history :: session where
  "session_with_history =
     ready_session\<lparr>messages :=
       [\<lparr>msg_id = 5, role = Assistant, content = Some ''earlier answer'', signal_configs = None,
         isStreaming = None, statusText = None, analysisLog = None\<rparr>]\<rparr>"


definition failing_reads :: "read_result list" where
  "failing_reads = [Chunk (ascii_bytes (join_lines (sse_record ''content'' content_json))), ReadError]"

section \<open>Auxiliary definitions for the proofs\<close>

text \<open>Replacing the decoder state and the carry-over buffer of a run, which no line handler reads.\<close>

definition set_db :: "'d \<Rightarrow> string \<Rightarrow> 'd stream_locals \<times> session \<Rightarrow> 'd stream_locals \<times> session" where
  "set_db d b s = (case s of (loc, st) \<Rightarrow> (loc\<lparr>decoder := d, buffer := b\<rparr>, st))"

text \<open>
  What a stream event may do to a message when the placeholder has the id \<open>a\<close>: the id,
  the role and the streaming flag stay, and a message with another id stays as it is.
  A step of a run keeps the ids the run was started with and the \<open>loading\<close> flag.
\<close>

definition msg_step :: "int \<Rightarrow> Message \<Rightarrow> Message \<Rightarrow> bool" where
  "msg_step a m m' \<longleftrightarrow>
     msg_id m' = msg_id m \<and> role m' = role m \<and> isStreaming m' = isStreaming m \<and> (msg_id m \<noteq> a \<longrightarrow> m' = m)"

definition touches_only :: "int \<Rightarrow> Message list \<Rightarrow> Message list \<Rightarrow> bool" where
  "touches_only a ms ms' = list_all2 (msg_step a) ms ms'"

definition stream_step :: "'d stream_locals \<times> session \<Rightarrow> 'd stream_locals \<times> session \<Rightarrow> bool" where
  "stream_step s s' \<longleftrightarrow>
     tempUserMsgId (fst s') = tempUserMsgId (fst s)
   \<and> tempAssistantMsgId (fst s') = tempAssistantMsgId (fst s)
   \<and> sentConversationId (fst s') = sentConversationId (fst s)
   \<and> loading (snd s') = loading (snd s)
   \<and> touches_only (tempAssistantMsgId (fst s)) (messages (snd s)) (messages (snd s'))"

text \<open>The invariant of the reachable states: only the placeholder of the run in flight is marked as streaming.\<close>

definition flagged :: "Message \<Rightarrow> bool" where
  "flagged m \<longleftrightarrow> isStreaming m = Some True"

definition session_inv :: "session \<times> 'd stream_locals option \<Rightarrow> bool" where
  "session_inv s =
     (case s of (st, fl) \<Rightarrow>
        (case fl of
           None \<Rightarrow> \<not> loading st \<and> filter flagged (messages st) = []
         | Some loc \<Rightarrow>
             loading st \<and> tempUserMsgId loc + 1 = tempAssistantMsgId loc
             \<and> length (filter flagged (messages st)) \<le> 1
             \<and> list_all (\<lambda>m. msg_id m = tempAssistantMsgId loc \<and> role m = Assistant)
                  (filter flagged (messages st))))"

section \<open>Validity of a configuration\<close>






section \<open>The trade list\<close>

lemma shown_TradesSection:
  "shown_trades (TradesSection trades sel busy) = (if busy then [] else take 20 trades)"
  by (simp add: shown_trades_def TradesSection_def TradeCard_def comp_def)

text \<open>
  Claim C9. The trade list shows at most 20 trades, namely the first 20 of the list it
  was given, in the order of that list.
\<close>

theorem trades_section_shows_first_twenty:
  "length (shown_trades (TradesSection trades sel busy)) \<le> 20
   \<and> shown_trades (TradesSection trades sel busy) = (if busy then [] else take 20 trades)
   \<and> prefix (shown_trades (TradesSection trades sel busy)) trades"
  by (simp add: shown_TradesSection take_is_prefix)

section \<open>Creation state\<close>

lemma settle_creating: "signalKey \<notin> creatingSignals (handleCreate_settle signalKey outcome st)"
  by (cases outcome) (simp_all add: handleCreate_settle_def Let_def)

lemma settle_created:
  "createdSignals (handleCreate_settle signalKey outcome st) =
     (if outcome = Resolved True then insert signalKey (createdSignals st) else createdSignals st)"
  by (cases outcome) (auto simp add: handleCreate_settle_def Let_def)

lemma begin_created: "createdSignals (handleCreate_begin signalKey st) = createdSignals st"
  by (simp add: handleCreate_begin_def)

text \<open>
  Claim C10. Whatever the create callback does (resolve to true, resolve to false,
  reject), the key of the card is not in the creating set once \<open>handleCreate\<close> has
  completed, also when other creations ran while it was waiting; the created set gains
  the key exactly when the callback resolved to true and loses nothing.
\<close>

theorem handleCreate_releases_key_and_keeps_created:
  "handleCreate_key configs config
     \<notin> creatingSignals (handleCreate onCreate onCreatePool configs config pool st)
   \<and> createdSignals (handleCreate onCreate onCreatePool configs config pool st) =
       (if (if pool then onCreatePool (snd config) else onCreate (snd config)) = Resolved True
        then insert (handleCreate_key configs config) (createdSignals st) else createdSignals st)
   \<and> createdSignals st \<subseteq> createdSignals (handleCreate onCreate onCreatePool configs config pool st)
   \<and> signalKey \<notin> creatingSignals (handleCreate_settle signalKey outcome st')
   \<and> createdSignals (handleCreate_begin signalKey st') = createdSignals st'
   \<and> createdSignals (handleCreate_settle signalKey outcome st') =
       (if outcome = Resolved True then insert signalKey (createdSignals st') else createdSignals st')"
  by (auto simp add: handleCreate_def Let_def settle_creating settle_created begin_created)

theorem handleCreate_releases_key_and_keeps_created_witness:
  "handleCreate (\<lambda>c. Resolved True) (\<lambda>c. Rejected) [(0, sample_signal ''A'')] (0, sample_signal ''A'') False
     no_creations = \<lparr>creatingSignals = {}, createdSignals = {''A''}\<rparr>
   \<and> handleCreate (\<lambda>c. Resolved True) (\<lambda>c. Rejected) [(0, sample_signal ''A'')] (0, sample_signal ''A'') True
     no_creations = no_creations"
  using handleCreate_releases_key_and_keeps_created
    [of "[(0, sample_signal ''A'')]" "(0, sample_signal ''A'')" "\<lambda>c. Resolved True" "\<lambda>c. Rejected" False no_creations]
  by (simp add: handleCreate_def handleCreate_key_def handleCreate_begin_def handleCreate_settle_def
      sample_signal_def no_creations_def Let_def)

section \<open>Keys of the cards\<close>

lemma nat_to_string_nonempty: "nat_to_string n \<noteq> []"
  by (subst nat_to_string.simps) simp

lemma digit_char_inj: "a < 10 \<Longrightarrow> b < 10 \<Longrightarrow> char_of (48 + a) = char_of (48 + (b::nat)) \<Longrightarrow> a = b"
  by (simp add: char_of_eq_iff take_bit_eq_mod)

lemma nts_small: "n < 10 \<Longrightarrow> nat_to_string n = [char_of (48 + n)]"
  by (subst nat_to_string.simps) simp

lemma nts_big: "\<not> n < 10 \<Longrightarrow> nat_to_string n = nat_to_string (n div 10) @ [char_of (48 + n mod 10)]"
  by (subst nat_to_string.simps) simp

lemma nts_big_length: "\<not> n < 10 \<Longrightarrow> length (nat_to_string n) \<ge> 2"
proof -
  assume big: "\<not> n < 10"
  obtain c cs where "nat_to_string (n div 10) = c # cs"
    using nat_to_string_nonempty [of "n div 10"] by (cases "nat_to_string (n div 10)") simp_all
  then have "nat_to_string n = c # cs @ [char_of (48 + n mod 10)]"
    by (subst nts_big [OF big]) simp
  then show ?thesis by simp
qed

lemma nat_to_string_inj: "nat_to_string m = nat_to_string n \<Longrightarrow> m = n"
proof (induction m arbitrary: n rule: nat_to_string.induct)
  case (1 m)
  show ?case
  proof (cases "m < 10")
    case small_m: True
    show ?thesis
    proof (cases "n < 10")
      case True
      with small_m "1.prems" have "char_of (48 + m) = char_of (48 + n)"
        by (simp only: nts_small list.inject)
      then show ?thesis by (rule digit_char_inj [OF small_m True])
    next
      case False
      have "length (nat_to_string m) = 1" using small_m by (simp add: nts_small)
      with nts_big_length [OF False] "1.prems" show ?thesis by simp
    qed
  next
    case big_m: False
    show ?thesis
    proof (cases "n < 10")
      case True
      have "length (nat_to_string n) = 1" using True by (simp add: nts_small)
      with nts_big_length [OF big_m] "1.prems" show ?thesis by simp
    next
      case False
      from "1.prems" have "nat_to_string (m div 10) @ [char_of (48 + m mod 10)]
          = nat_to_string (n div 10) @ [char_of (48 + n mod 10)]"
        by (simp only: nts_big [OF big_m] nts_big [OF False])
      then have eq: "nat_to_string (m div 10) = nat_to_string (n div 10)"
        and last: "char_of (48 + m mod 10) = char_of (48 + n mod 10)" by simp_all
      from "1.IH" [OF big_m eq] have d: "m div 10 = n div 10" .
      have r: "m mod 10 = n mod 10" by (rule digit_char_inj [OF _ _ last]) simp_all
      have "m = m div 10 * 10 + m mod 10" by (rule div_mult_mod_eq [symmetric])
      also have "\<dots> = n div 10 * 10 + n mod 10" by (simp only: d r)
      also have "\<dots> = n" by (rule div_mult_mod_eq)
      finally show ?thesis .
    qed
  qed
qed

lemma indexOf_from_nth:
  "distinct (map fst configs) \<Longrightarrow> i < length configs \<Longrightarrow>
   indexOf_from configs (configs ! i) k = k + int i"
proof (induction configs arbitrary: i k)
  case Nil
  then show ?case by simp
next
  case (Cons x xs)
  show ?case
  proof (cases i)
    case 0
    then show ?thesis by simp
  next
    case (Suc j)
    with Cons.prems have j: "j < length xs" and d: "distinct (map fst xs)"
      and "fst x \<notin> fst ` set xs" by simp_all
    then have "fst x \<noteq> fst (xs ! j)" by (metis imageI nth_mem)
    with Cons.IH [OF d j, of "k + 1"] Suc show ?thesis by simp
  qed
qed

lemma handleCreate_key_card_key:
  "distinct (map fst configs) \<Longrightarrow> i < length configs \<Longrightarrow>
   handleCreate_key configs (configs ! i) = card_key (configs ! i) i"
  unfolding handleCreate_key_def card_key_def indexOf_def
  by (simp add: indexOf_from_nth int_to_string_def)

lemma signal_prefix_inj: "''signal-'' @ nat_to_string i = ''signal-'' @ nat_to_string j \<Longrightarrow> i = j"
  by (rule nat_to_string_inj) (simp only: same_append_eq)

lemma card_key_eq_iff:
  "card_key c i = card_key d j \<longleftrightarrow>
     (name (snd c) \<noteq> [] \<and> name (snd d) = name (snd c))
   \<or> (name (snd c) = [] \<and> name (snd d) = ''signal-'' @ nat_to_string i)
   \<or> (name (snd d) = [] \<and> name (snd c) = ''signal-'' @ nat_to_string j)
   \<or> (name (snd c) = [] \<and> name (snd d) = [] \<and> i = j)"
proof (cases "name (snd c) = []"; cases "name (snd d) = []")
  assume "name (snd c) = []" "name (snd d) = []"
  then show ?thesis
    using signal_prefix_inj [of i j] by (auto simp add: card_key_def)
qed (auto simp add: card_key_def)

text \<open>
  Claim C7 as stated fails: two different configurations with the same name have the
  same key, and creating the first marks the second as created.
\<close>

theorem same_name_cards_share_key:
  "distinct (map fst same_name_configs)
   \<and> snd (same_name_configs ! 0) \<noteq> snd (same_name_configs ! 1)
   \<and> card_key (same_name_configs ! 0) 0 = card_key (same_name_configs ! 1) 1
   \<and> \<not> isCreated no_creations (same_name_configs ! 1) 1
   \<and> isCreated (handleCreate always_succeeds always_succeeds same_name_configs
                  (same_name_configs ! 0) False no_creations) (same_name_configs ! 1) 1"
  by (simp add: same_name_configs_def sample_signal_def card_key_def isCreated_def no_creations_def
      handleCreate_def handleCreate_key_def handleCreate_begin_def handleCreate_settle_def
      always_succeeds_def Let_def)

text \<open>
  Claim C7, amended. In a list of configurations, the keys of two cards are equal only
  if both configurations have the same non-empty name, or one has no name and the other
  is named like the positional key of the first (\<open>signal-\<close> and its index); two
  unnamed cards never share a key. \<open>handleCreate\<close> computes the key the card is
  rendered with, and it changes neither the creating nor the created status of a card
  with another key.
\<close>

theorem card_keys_collide_only_by_name:
  assumes "distinct (map fst configs)" and "i < length configs" and "j < length configs" and "i \<noteq> j"
  shows "(card_key (configs ! i) i = card_key (configs ! j) j \<longleftrightarrow>
            (name (snd (configs ! i)) \<noteq> [] \<and> name (snd (configs ! j)) = name (snd (configs ! i)))
          \<or> (name (snd (configs ! i)) = [] \<and> name (snd (configs ! j)) = ''signal-'' @ nat_to_string i)
          \<or> (name (snd (configs ! j)) = [] \<and> name (snd (configs ! i)) = ''signal-'' @ nat_to_string j))
       \<and> handleCreate_key configs (configs ! i) = card_key (configs ! i) i
       \<and> (card_key (configs ! j) j \<noteq> card_key (configs ! i) i \<longrightarrow>
            isCreating (handleCreate_begin (handleCreate_key configs (configs ! i)) st) (configs ! j) j
              = isCreating st (configs ! j) j
          \<and> isCreating (handleCreate_settle (handleCreate_key configs (configs ! i)) outcome st) (configs ! j) j
              = isCreating st (configs ! j) j
          \<and> isCreated (handleCreate_settle (handleCreate_key configs (configs ! i)) outcome st) (configs ! j) j
              = isCreated st (configs ! j) j)"
proof (intro conjI impI)
  show "card_key (configs ! i) i = card_key (configs ! j) j \<longleftrightarrow>
            (name (snd (configs ! i)) \<noteq> [] \<and> name (snd (configs ! j)) = name (snd (configs ! i)))
          \<or> (name (snd (configs ! i)) = [] \<and> name (snd (configs ! j)) = ''signal-'' @ nat_to_string i)
          \<or> (name (snd (configs ! j)) = [] \<and> name (snd (configs ! i)) = ''signal-'' @ nat_to_string j)"
    using \<open>i \<noteq> j\<close> by (simp add: card_key_eq_iff)
next
  show key: "handleCreate_key configs (configs ! i) = card_key (configs ! i) i"
    using assms(1,2) by (rule handleCreate_key_card_key)
  assume other: "card_key (configs ! j) j \<noteq> card_key (configs ! i) i"
  show "isCreating (handleCreate_begin (handleCreate_key configs (configs ! i)) st) (configs ! j) j
          = isCreating st (configs ! j) j"
    using other by (simp add: key isCreating_def handleCreate_begin_def)
  show "isCreating (handleCreate_settle (handleCreate_key configs (configs ! i)) outcome st) (configs ! j) j
          = isCreating st (configs ! j) j"
    using other by (cases outcome) (simp_all add: key isCreating_def handleCreate_settle_def Let_def)
  show "isCreated (handleCreate_settle (handleCreate_key configs (configs ! i)) outcome st) (configs ! j) j
          = isCreated st (configs ! j) j"
    using other by (simp add: key isCreated_def settle_created)
qed

theorem card_keys_collide_only_by_name_witness:
  "card_key (two_named_configs ! 0) 0 \<noteq> card_key (two_named_configs ! 1) 1
   \<and> handleCreate_key two_named_configs (two_named_configs ! 0) = ''Alpha''
   \<and> \<not> isCreated (handleCreate_settle (handleCreate_key two_named_configs (two_named_configs ! 0))
                     (Resolved True) no_creations) (two_named_configs ! 1) 1"
  using card_keys_collide_only_by_name [of two_named_configs 0 1 no_creations "Resolved True"]
  by (simp add: two_named_configs_def sample_signal_def card_key_def isCreated_def isCreating_def
      no_creations_def handleCreate_key_def handleCreate_begin_def handleCreate_settle_def Let_def)

section \<open>The decode loop and the chunks of the network\<close>

lemma split_nl_nonempty: "split_nl s \<noteq> []"
  by (cases s) simp_all

lemma split_nl_no_newline: "CHR 0x0A \<notin> set s \<Longrightarrow> split_nl s = [s]"
  by (induction s) auto

lemma last_split_nl_no_newline: "CHR 0x0A \<notin> set (last (split_nl s))"
proof (induction s)
  case Nil
  show ?case by simp
next
  case (Cons c cs)
  obtain l ls where ls: "split_nl cs = l # ls"
    using split_nl_nonempty [of cs] by (cases "split_nl cs") simp_all
  with Cons show ?case by (cases ls) auto
qed

lemma split_nl_append:
  "split_nl (a @ b) = butlast (split_nl a) @ split_nl (last (split_nl a) @ b)"
proof (induction a)
  case Nil
  show ?case by simp
next
  case (Cons c cs)
  obtain l ls where ls: "split_nl cs = l # ls"
    using split_nl_nonempty [of cs] by (cases "split_nl cs") simp_all
  obtain m ms where ms: "split_nl (cs @ b) = m # ms"
    using split_nl_nonempty [of "cs @ b"] by (cases "split_nl (cs @ b)") simp_all
  show ?case
  proof (cases ls)
    case Nil
    with Cons ls ms show ?thesis by simp
  next
    case (Cons k ks)
    with Cons.IH ls ms show ?thesis by simp
  qed
qed

lemma decode_append:
  "decode step d (a @ b) =
     (case decode step d a of (d1, t1) \<Rightarrow> (case decode step d1 b of (d2, t2) \<Rightarrow> (d2, t1 @ t2)))"
  by (induction a arbitrary: d) (simp_all split: prod.splits)

lemma onUpdate_set_db:
  "onUpdate u (loc\<lparr>decoder := d, buffer := b\<rparr>) = (onUpdate u loc)\<lparr>decoder := d, buffer := b\<rparr>"
  by (simp add: onUpdate_def Let_def split: option.splits)

lemma handleSSEEvent_set_db:
  "handleSSEEvent et data i onUpdate (set_db d b s) = set_db d b (handleSSEEvent et data i onUpdate s)"
  by (cases s) (simp add: handleSSEEvent_def set_db_def onUpdate_set_db Let_def split: option.splits)

lemma process_line_set_db:
  "process_line parse (set_db d b s) line = set_db d b (process_line parse s line)"
proof (cases s)
  case (Pair loc st)
  have h: "handleSSEEvent et data i onUpdate (loc\<lparr>decoder := d, buffer := b\<rparr>, st)
      = set_db d b (handleSSEEvent et data i onUpdate (loc, st))" for et data i
    using handleSSEEvent_set_db [of et data i d b "(loc, st)"] by (simp add: set_db_def)
  show ?thesis
    unfolding Pair process_line_def
    by (simp add: set_db_def h split: option.splits prod.splits)
qed

lemma foldl_process_line_set_db:
  "foldl (process_line parse) (set_db d b s) ls = set_db d b (foldl (process_line parse) s ls)"
  by (induction ls arbitrary: s) (simp_all add: process_line_set_db)

lemma set_db_set_db: "set_db d b (set_db d' b' s) = set_db d b s"
  by (cases s) (simp add: set_db_def)

lemma set_db_same: "set_db (decoder (fst s)) (buffer (fst s)) s = s"
  by (cases s) (simp add: set_db_def)

lemma fst_set_db: "decoder (fst (set_db d b s)) = d" "buffer (fst (set_db d b s)) = b"
  by (cases s; simp add: set_db_def)+

lemma read_chunk_alt:
  "read_chunk td parse s v =
     (case decode (dec_step td) (decoder (fst s)) v of (d', text) \<Rightarrow>
        set_db d' (last (split_nl (buffer (fst s) @ text)))
          (foldl (process_line parse) s (butlast (split_nl (buffer (fst s) @ text)))))"
proof (cases s)
  case (Pair loc st)
  show ?thesis
    unfolding Pair read_chunk_def
    using foldl_process_line_set_db [of parse _ _ "(loc, st)"]
    by (simp add: set_db_def Let_def split: prod.splits)
qed

lemma read_chunk_append:
  "read_chunk td parse (read_chunk td parse s a) b = read_chunk td parse s (a @ b)"
proof -
  obtain d1 ta where a: "decode (dec_step td) (decoder (fst s)) a = (d1, ta)" by fastforce
  obtain d2 tb where b: "decode (dec_step td) d1 b = (d2, tb)" by fastforce
  have ab: "decode (dec_step td) (decoder (fst s)) (a @ b) = (d2, ta @ tb)"
    by (simp add: decode_append a b)
  let ?buf = "buffer (fst s)"
  let ?La = "split_nl (?buf @ ta)"
  let ?Lb = "split_nl (last ?La @ tb)"
  have L: "split_nl (?buf @ ta @ tb) = butlast ?La @ ?Lb"
    using split_nl_append [of "?buf @ ta" tb] by simp
  have Lb: "?Lb \<noteq> []" by (rule split_nl_nonempty)
  have last: "last (split_nl (?buf @ ta @ tb)) = last ?Lb"
    by (simp add: L Lb)
  have butlast: "butlast (split_nl (?buf @ ta @ tb)) = butlast ?La @ butlast ?Lb"
    by (simp add: L Lb butlast_append)
  show ?thesis
    by (simp add: read_chunk_alt [of td parse s] read_chunk_alt [of td parse "set_db _ _ _"]
        a b ab fst_set_db last butlast foldl_process_line_set_db set_db_set_db)
qed

lemma read_chunk_empty:
  "CHR 0x0A \<notin> set (buffer (fst s)) \<Longrightarrow> read_chunk td parse s [] = s"
  by (simp add: read_chunk_alt split_nl_no_newline set_db_same)

lemma read_chunk_buffer: "CHR 0x0A \<notin> set (buffer (fst (read_chunk td parse s v)))"
  by (simp add: read_chunk_alt fst_set_db last_split_nl_no_newline split: prod.splits)

lemma decode_loop_concat:
  "CHR 0x0A \<notin> set (buffer (fst s)) \<Longrightarrow>
   decode_loop td parse s chunks = read_chunk td parse s (concat chunks)"
proof (induction chunks arbitrary: s)
  case Nil
  then show ?case by (simp add: decode_loop_def read_chunk_empty)
next
  case (Cons c cs)
  have "decode_loop td parse s (c # cs) = decode_loop td parse (read_chunk td parse s c) cs"
    by (simp add: decode_loop_def)
  also have "\<dots> = read_chunk td parse (read_chunk td parse s c) (concat cs)"
    by (rule Cons.IH) (rule read_chunk_buffer)
  also have "\<dots> = read_chunk td parse s (concat (c # cs))"
    by (simp add: read_chunk_append)
  finally show ?case .
qed

lemma read_loop_chunks:
  "read_loop td parse s (map Chunk chunks @ rest) = read_loop td parse (decode_loop td parse s chunks) rest"
  by (induction chunks arbitrary: s) (simp_all add: decode_loop_def)

lemma begin_buffer: "buffer (fst (sendMessage_begin td now st)) = []"
  by (simp add: sendMessage_begin_def Let_def)

text \<open>
  Claim C1. However the bytes of a stream are cut into chunks, also inside a line or
  inside the bytes of one character, the decode loop of \<open>sendMessage\<close> ends in the
  state it reaches when all bytes arrive as one chunk: the same local variables
  (final content, signal configurations, conversation id, message id, buffer, decoder)
  and the same state of the modal, so that \<open>sendMessage\<close> finishes alike.
\<close>

theorem decode_loop_independent_of_chunking:
  "decode_loop td parse (sendMessage_begin td now st) chunks
     = decode_loop td parse (sendMessage_begin td now st) [concat chunks]
   \<and> sendMessage td parse now (Response True (Some (map Chunk chunks @ [Done]))) st
     = sendMessage td parse now (Response True (Some [Chunk (concat chunks), Done])) st"
proof -
  have loop: "decode_loop td parse (sendMessage_begin td now st) chunks
     = decode_loop td parse (sendMessage_begin td now st) [concat chunks]"
    by (simp add: decode_loop_concat begin_buffer)
  have "read_loop td parse (sendMessage_begin td now st) (map Chunk chunks @ [Done])
      = read_loop td parse (sendMessage_begin td now st) (map Chunk [concat chunks] @ [Done])"
    by (simp only: read_loop_chunks loop)
  then show ?thesis
    using loop by (simp add: sendMessage_def Let_def)
qed

lemma decode_pending_lead:
  "decode utf8_low_step None (ascii_bytes ''data: '' @ [0xC3]) = (Some 0xC3, ''data: '')"
  by (simp add: ascii_bytes_def utf8_low_step_def char_of_def bit_0)

theorem decode_loop_independent_of_chunking_witness:
  "decode_loop utf8_low sample_parse (sendMessage_begin utf8_low 1000 ready_session) split_chunks
     = decode_loop utf8_low sample_parse (sendMessage_begin utf8_low 1000 ready_session) [concat split_chunks]
   \<and> decoder (fst (decode_loop utf8_low sample_parse (sendMessage_begin utf8_low 1000 ready_session)
        [hd split_chunks])) = Some 0xC3
   \<and> buffer (fst (decode_loop utf8_low sample_parse (sendMessage_begin utf8_low 1000 ready_session)
        [hd split_chunks])) = ''data: ''"
  using decode_loop_independent_of_chunking [of utf8_low sample_parse 1000 ready_session split_chunks]
  by (simp add: split_chunks_def decode_loop_def read_chunk_def sendMessage_begin_def Let_def
      utf8_low_def decode_pending_lead)

section \<open>Lines and records\<close>

lemma startsWith_append: "startsWith (p @ s) p"
  by (simp add: startsWith_def)

lemma data_not_event: "\<not> startsWith (''data: '' @ d) ''event: ''"
  by (simp add: startsWith_def)

lemma process_event_line:
  "process_line parse (loc, st) (''event: '' @ ty) = (loc\<lparr>currentEventType := trim ty\<rparr>, st)"
  using startsWith_append [of "''event: ''" ty] by (simp add: process_line_def)

lemma process_data_line:
  "process_line parse (loc, st) (''data: '' @ d) =
     (case parse d of
        None \<Rightarrow> (loc\<lparr>currentEventType := []\<rparr>, st)
      | Some data \<Rightarrow>
          (case handleSSEEvent (currentEventType loc) data (tempAssistantMsgId loc) onUpdate (loc, st) of
             (loc', st') \<Rightarrow> (loc'\<lparr>currentEventType := []\<rparr>, st')))"
  using startsWith_append [of "''data: ''" d] data_not_event [of d] by (simp add: process_line_def)

lemma process_blank_line: "process_line parse s [] = s"
  by (cases s) (simp add: process_line_def startsWith_def)

lemma process_record:
  "foldl (process_line parse) (loc, st) (sse_record ty d) =
     (case parse d of
        None \<Rightarrow> (loc\<lparr>currentEventType := []\<rparr>, st)
      | Some data \<Rightarrow>
          (case handleSSEEvent (trim ty) data (tempAssistantMsgId loc) onUpdate
                  (loc\<lparr>currentEventType := trim ty\<rparr>, st) of
             (loc', st') \<Rightarrow> (loc'\<lparr>currentEventType := []\<rparr>, st')))"
  unfolding sse_record_def
  by (simp only: foldl.simps process_event_line process_data_line process_blank_line)
     (simp split: option.splits prod.splits)

lemma split_nl_line: "newline_free l \<Longrightarrow> split_nl (l @ CHR 0x0A # r) = l # split_nl r"
  by (induction l) (auto simp add: newline_free_def)

lemma split_nl_join_lines:
  "list_all newline_free ls \<Longrightarrow> split_nl (join_lines ls @ r) = ls @ split_nl r"
  by (induction ls) (simp_all add: join_lines_def split_nl_line)

lemma split_nl_join_lines': "list_all newline_free ls \<Longrightarrow> split_nl (join_lines ls) = ls @ [[]]"
  using split_nl_join_lines [of ls "[]"] by simp

lemma byte_of_ascii_char:
  assumes "of_char c < (128::nat)"
  shows "(of_char c :: byte) < 0x80" and "char_of (unat (of_char c :: byte)) = c"
proof -
  have u: "unat (of_char c :: byte) = of_char c"
    using assms by (simp add: of_nat_of_char [symmetric, where ?'a = byte] unat_of_nat)
  show "(of_char c :: byte) < 0x80" using assms by (simp add: word_less_nat_alt u)
  show "char_of (unat (of_char c :: byte)) = c" by (simp add: u)
qed

lemma ascii_decode: "ascii s \<Longrightarrow> decode utf8_low_step None (ascii_bytes s) = (None, s)"
  by (induction s) (simp_all add: ascii_def ascii_bytes_def utf8_low_step_def byte_of_ascii_char)

lemma read_chunk_lines:
  assumes "decode (dec_step td) (decoder (fst s)) v = (d', join_lines ls)"
    and "list_all newline_free ls" and "buffer (fst s) = []"
  shows "read_chunk td parse s v = set_db d' [] (foldl (process_line parse) s ls)"
  using assms by (simp add: read_chunk_alt split_nl_join_lines')

lemma decode_loop_lines:
  assumes "decode (dec_step td) (decoder (fst s)) (concat chunks) = (d', join_lines ls)"
    and "list_all newline_free ls" and "buffer (fst s) = []"
  shows "decode_loop td parse s chunks = set_db d' [] (foldl (process_line parse) s ls)"
  using assms by (simp add: decode_loop_concat read_chunk_lines)

lemma sample_parse_simps:
  "sample_parse status_json = Some (empty_payload\<lparr>data_message := Some ''A''\<rparr>)"
  "sample_parse content_json = Some (empty_payload\<lparr>data_content := Some ''hello''\<rparr>)"
  "sample_parse done_json =
     Some (empty_payload\<lparr>data_content := Some ''hello'', data_signal_configs := Some [sample_signal ''Alpha''],
                          data_conversation_id := Some 7, data_message_id := Some 42\<rparr>)"
  "sample_parse alpha_event_json = Some (empty_payload\<lparr>data_config := Some (sample_signal ''Alpha'')\<rparr>)"
  "sample_parse beta_event_json = Some (empty_payload\<lparr>data_config := Some (sample_signal ''Beta'')\<rparr>)"
  by (simp_all add: sample_parse_def sample_payloads_def status_json_def content_json_def done_json_def
      alpha_event_json_def beta_event_json_def alpha_json_def beta_json_def)

lemma sample_texts_newline_free:
  "newline_free status_json" "newline_free content_json" "newline_free done_json"
  "newline_free alpha_event_json" "newline_free beta_event_json"
  by (simp_all add: newline_free_def status_json_def content_json_def done_json_def
      alpha_event_json_def beta_event_json_def alpha_json_def beta_json_def)

lemma example_lines_ascii: "ascii (join_lines example_lines)"
  by (simp add: ascii_def join_lines_def example_lines_def sse_record_def status_json_def
      content_json_def done_json_def alpha_json_def)

lemma two_configs_ascii:
  "ascii (join_lines (concat (map (sse_record ''signal_config'') [alpha_event_json, beta_event_json])))"
  by (simp add: ascii_def join_lines_def sse_record_def alpha_event_json_def beta_event_json_def
      alpha_json_def beta_json_def)

lemma ready_session_input:
  "trim (userInput ready_session) \<noteq> []" "truthy_num (selectedAccountId ready_session)"
  by (simp_all add: ready_session_def initial_session_def trim_def js_whitespace_def truthy_num_def)

section \<open>Malformed payloads\<close>

text \<open>
  Claim C5. A \<open>data:\<close> line whose text \<open>JSON.parse\<close> rejects changes neither the
  messages nor the pending final values, whatever the pending event type is: only the
  event type is reset, and the loop goes on with the lines that follow. No content of a
  stream makes the loop throw: a stream that ends is always finalized.
\<close>

theorem malformed_data_line_is_skipped:
  assumes "parse d = None"
  shows "process_line parse (loc, st) (''data: '' @ d) = (loc\<lparr>currentEventType := []\<rparr>, st)
    \<and> foldl (process_line parse) (loc, st) (sse_record ty d @ rest)
        = foldl (process_line parse) (loc\<lparr>currentEventType := []\<rparr>, st) rest
    \<and> read_loop td parse s (map Chunk chunks @ Done # rs)
        = Settled (finally_block (finalize (decode_loop td parse s chunks)))"
proof (intro conjI)
  show "process_line parse (loc, st) (''data: '' @ d) = (loc\<lparr>currentEventType := []\<rparr>, st)"
    by (simp only: process_data_line assms option.case)
  show "foldl (process_line parse) (loc, st) (sse_record ty d @ rest)
        = foldl (process_line parse) (loc\<lparr>currentEventType := []\<rparr>, st) rest"
    by (simp only: foldl_append process_record assms option.case)
  show "read_loop td parse s (map Chunk chunks @ Done # rs)
        = Settled (finally_block (finalize (decode_loop td parse s chunks)))"
    by (simp add: read_loop_chunks)
qed

theorem malformed_data_line_is_skipped_witness:
  "process_line sample_parse (sendMessage_begin utf8_low 1000 ready_session) ''data: {broken''
     = (fst (sendMessage_begin utf8_low 1000 ready_session)\<lparr>currentEventType := []\<rparr>,
        snd (sendMessage_begin utf8_low 1000 ready_session))"
proof -
  have bad: "sample_parse ''{broken'' = None"
    by (simp add: sample_parse_def sample_payloads_def status_json_def content_json_def done_json_def
        alpha_event_json_def beta_event_json_def)
  from malformed_data_line_is_skipped
      [where parse = sample_parse and d = "''{broken''"
         and loc = "fst (sendMessage_begin utf8_low 1000 ready_session)"
         and st = "snd (sendMessage_begin utf8_low 1000 ready_session)"
         and ty = "''status''" and rest = "[]" and td = utf8_low
         and s = "sendMessage_begin utf8_low 1000 ready_session" and chunks = "[]" and rs = "[]", OF bad]
  show ?thesis by simp
qed

section \<open>Signal configurations in the stream\<close>

lemma trim_signal_config: "trim ''signal_config'' = ''signal_config''"
  by (simp add: trim_def js_whitespace_def)

lemma onUpdate_signalConfigs:
  "onUpdate (no_updates\<lparr>upd_signalConfigs := Some cs\<rparr>) loc = loc\<lparr>finalSignalConfigs := cs\<rparr>"
  by (simp add: onUpdate_def no_updates_def truthy_num_def)

lemma handle_signal_config:
  "data_config data = Some c \<Longrightarrow>
   handleSSEEvent ''signal_config'' data i onUpdate (loc, st) = (loc\<lparr>finalSignalConfigs := [c]\<rparr>, st)"
  by (simp add: handleSSEEvent_def onUpdate_signalConfigs)

lemma process_signal_config_record:
  assumes "signal_config_payload parse d"
  shows "foldl (process_line parse) (loc, st) (sse_record ''signal_config'' d)
         = (loc\<lparr>finalSignalConfigs := [config_of parse d], currentEventType := []\<rparr>, st)"
proof -
  from assms obtain p c where p: "parse d = Some p" and c: "data_config p = Some c"
    by (auto simp add: signal_config_payload_def split: option.splits)
  show ?thesis
    by (simp add: process_record p trim_signal_config handle_signal_config [OF c] config_of_def c)
qed

lemma process_signal_config_records:
  assumes "ds \<noteq> []" and "list_all (signal_config_payload parse) ds"
  shows "foldl (process_line parse) (loc, st) (concat (map (sse_record ''signal_config'') ds))
         = (loc\<lparr>finalSignalConfigs := [config_of parse (last ds)], currentEventType := []\<rparr>, st)"
  using assms
proof (induction ds arbitrary: loc)
  case Nil
  then show ?case by simp
next
  case (Cons d ds)
  from Cons.prems have d: "signal_config_payload parse d" by simp
  show ?case
  proof (cases "ds = []")
    case True
    then show ?thesis by (simp add: process_signal_config_record [OF d])
  next
    case False
    with Cons.prems have "list_all (signal_config_payload parse) ds" by simp
    from Cons.IH [OF False this] False show ?thesis
      by (simp add: process_signal_config_record [OF d])
  qed
qed

lemma signal_config_lines_newline_free:
  "list_all newline_free ds \<Longrightarrow> list_all newline_free (concat (map (sse_record ''signal_config'') ds))"
  by (induction ds) (simp_all add: sse_record_def newline_free_def)

lemma decode_loop_signal_configs:
  assumes "ds \<noteq> []" and "list_all (signal_config_payload parse) ds" and "list_all newline_free ds"
    and bytes: "snd (decode (dec_step td) (dec_init td) (concat chunks))
            = join_lines (concat (map (sse_record ''signal_config'') ds))"
  shows "finalSignalConfigs (fst (decode_loop td parse (sendMessage_begin td now st) chunks))
           = [config_of parse (last ds)]"
    and "snd (decode_loop td parse (sendMessage_begin td now st) chunks) = snd (sendMessage_begin td now st)"
proof -
  obtain loc0 st0 where s0: "sendMessage_begin td now st = (loc0, st0)" by fastforce
  then have ids: "buffer loc0 = []" "decoder loc0 = dec_init td"
    by (auto simp add: sendMessage_begin_def Let_def)
  obtain d' where dec: "decode (dec_step td) (decoder (fst (loc0, st0))) (concat chunks)
      = (d', join_lines (concat (map (sse_record ''signal_config'') ds)))"
    using bytes by (cases "decode (dec_step td) (dec_init td) (concat chunks)") (simp add: ids)
  have loop: "decode_loop td parse (loc0, st0) chunks
      = set_db d' [] (foldl (process_line parse) (loc0, st0) (concat (map (sse_record ''signal_config'') ds)))"
    by (rule decode_loop_lines [OF dec signal_config_lines_newline_free [OF assms(3)]]) (simp add: ids)
  have final: "decode_loop td parse (loc0, st0) chunks
      = (loc0\<lparr>finalSignalConfigs := [config_of parse (last ds)], currentEventType := [],
              decoder := d', buffer := []\<rparr>, st0)"
    by (simp only: loop process_signal_config_records [OF assms(1,2)] set_db_def prod.case)
  show "finalSignalConfigs (fst (decode_loop td parse (sendMessage_begin td now st) chunks))
           = [config_of parse (last ds)]"
    by (simp add: s0 final)
  show "snd (decode_loop td parse (sendMessage_begin td now st) chunks) = snd (sendMessage_begin td now st)"
    by (simp add: s0 final)
qed

lemma two_configs_well_formed:
  "list_all (signal_config_payload sample_parse) [alpha_event_json, beta_event_json]"
  "config_of sample_parse alpha_event_json = sample_signal ''Alpha''"
  "config_of sample_parse beta_event_json = sample_signal ''Beta''"
  by (simp_all add: signal_config_payload_def config_of_def sample_parse_simps empty_payload_def)

lemma two_configs_bytes:
  "snd (decode (dec_step utf8_low) (dec_init utf8_low) (concat two_configs_chunks))
     = join_lines (concat (map (sse_record ''signal_config'') [alpha_event_json, beta_event_json]))"
  using ascii_decode [OF two_configs_ascii] by (simp add: two_configs_chunks_def utf8_low_def)

text \<open>
  Claim C2 as stated fails: after a stream of two well-formed \<open>signal_config\<close>
  records, for the configurations Alpha and Beta, the pending list holds Beta only.
\<close>

theorem second_signal_config_replaces_first:
  "list_all (signal_config_payload sample_parse) [alpha_event_json, beta_event_json]
   \<and> map (config_of sample_parse) [alpha_event_json, beta_event_json]
       = [sample_signal ''Alpha'', sample_signal ''Beta'']
   \<and> finalSignalConfigs (fst (decode_loop utf8_low sample_parse
         (sendMessage_begin utf8_low 1000 ready_session) two_configs_chunks))
       = [sample_signal ''Beta'']
   \<and> finalSignalConfigs (fst (decode_loop utf8_low sample_parse
         (sendMessage_begin utf8_low 1000 ready_session) two_configs_chunks))
       \<noteq> [sample_signal ''Alpha'', sample_signal ''Beta'']"
proof -
  have "finalSignalConfigs (fst (decode_loop utf8_low sample_parse
         (sendMessage_begin utf8_low 1000 ready_session) two_configs_chunks))
       = [config_of sample_parse (last [alpha_event_json, beta_event_json])]"
    by (rule decode_loop_signal_configs(1) [OF _ two_configs_well_formed(1) _ two_configs_bytes])
       (simp_all add: sample_texts_newline_free)
  then show ?thesis
    using two_configs_well_formed by (simp add: sample_signal_def)
qed

text \<open>
  Claim C2, amended. A \<open>signal_config\<close> event with a configuration replaces the
  pending list of final configurations by the list of that one configuration. After a
  stream of one or more well-formed \<open>signal_config\<close> records the pending list
  therefore holds exactly the configuration of the last record, and the state of the
  modal is the one the send began with.
\<close>

theorem signal_config_event_replaces_pending_list:
  fixes td :: "'d TextDecoder"
  assumes "ds \<noteq> []" and "list_all (signal_config_payload parse) ds" and "list_all newline_free ds"
    and "snd (decode (dec_step td) (dec_init td) (concat chunks))
            = join_lines (concat (map (sse_record ''signal_config'') ds))"
  shows "finalSignalConfigs (fst (decode_loop td parse (sendMessage_begin td now st) chunks))
           = [config_of parse (last ds)]
     \<and> snd (decode_loop td parse (sendMessage_begin td now st) chunks) = snd (sendMessage_begin td now st)
     \<and> (data_config data = Some c \<longrightarrow>
          handleSSEEvent ''signal_config'' data i onUpdate (loc, st')
            = (loc\<lparr>finalSignalConfigs := [c]\<rparr> :: 'd stream_locals, st'))"
  using decode_loop_signal_configs [OF assms] handle_signal_config [of data c i loc st'] by simp

theorem signal_config_event_replaces_pending_list_witness:
  "finalSignalConfigs (fst (decode_loop utf8_low sample_parse
         (sendMessage_begin utf8_low 1000 ready_session) two_configs_chunks))
     = [sample_signal ''Beta'']
   \<and> messages (snd (decode_loop utf8_low sample_parse
         (sendMessage_begin utf8_low 1000 ready_session) two_configs_chunks))
     = messages (snd (sendMessage_begin utf8_low 1000 ready_session))"
  using signal_config_event_replaces_pending_list [OF _ two_configs_well_formed(1) _ two_configs_bytes, of 1000 ready_session]
  by (simp add: sample_texts_newline_free two_configs_well_formed)

section \<open>The example stream of the specification\<close>

lemma trim_event_names:
  "trim ''status'' = ''status''" "trim ''content'' = ''content''" "trim ''done'' = ''done''"
  by (simp_all add: trim_def js_whitespace_def)

lemma record_lines_newline_free:
  "newline_free d \<Longrightarrow> newline_free ty \<Longrightarrow> list_all newline_free (sse_record ty d)"
  by (simp add: sse_record_def newline_free_def)

lemma handle_status:
  "handleSSEEvent ''status'' p i onUpdate (loc, st)
     = (loc, update_message i (\<lambda>m. m\<lparr>statusText := data_message p\<rparr>) st)"
  by (simp add: handleSSEEvent_def)

lemma handle_content:
  "data_content p = Some c \<Longrightarrow>
   handleSSEEvent ''content'' p i onUpdate (loc, st)
     = (loc\<lparr>finalContent := c\<rparr>, update_message i (\<lambda>m. m\<lparr>content := Some c, statusText := None\<rparr>) st)"
  by (simp add: handleSSEEvent_def onUpdate_def no_updates_def truthy_num_def)

lemma handle_done:
  "handleSSEEvent ''done'' p i onUpdate (loc, st)
     = (onUpdate \<lparr>upd_content = data_content p, upd_signalConfigs = data_signal_configs p,
                  upd_conversationId = data_conversation_id p, upd_messageId = data_message_id p\<rparr> loc, st)"
  by (simp add: handleSSEEvent_def)

text \<open>
  Claim C3. For a stream of the three records \<open>status\<close> with message A, \<open>content\<close>
  with content hello, and \<open>done\<close> with content hello, the configurations \<open>[cfg]\<close>,
  conversation id 7 and message id 42, cut into chunks in any way, \<open>sendMessage\<close>
  returns with the placeholder assistant message, the last of the list, holding the
  content hello, the streaming flag false and no status text, and with \<open>cfg\<close> added
  to the list of all configurations.
\<close>

theorem example_stream_final_state:
  fixes td :: "'d TextDecoder" and parse :: json_parse and now :: int
    and chunks :: "byte list list" and st :: session
  defines "r \<equiv> sendMessage td parse now (Response True (Some (map Chunk chunks @ [Done]))) st"
  assumes input: "trim (userInput st) \<noteq> []" "truthy_num (selectedAccountId st)"
    and p1: "parse d1 = Some p1" "data_message p1 = Some ''A''"
    and p2: "parse d2 = Some p2" "data_content p2 = Some ''hello''"
    and p3: "parse d3 = Some p3" "data_content p3 = Some ''hello''" "data_signal_configs p3 = Some [cfg]"
            "data_conversation_id p3 = Some 7" "data_message_id p3 = Some 42"
    and nl: "newline_free d1" "newline_free d2" "newline_free d3"
    and bytes: "snd (decode (dec_step td) (dec_init td) (concat chunks))
                = join_lines (sse_record ''status'' d1 @ sse_record ''content'' d2 @ sse_record ''done'' d3)"
  shows "is_settled r
     \<and> last (messages (outcome_state r)) =
         \<lparr>msg_id = now + 1, role = Assistant, content = Some ''hello'', signal_configs = Some [cfg],
          isStreaming = Some False, statusText = None, analysisLog = None\<rparr>
     \<and> allSignalConfigs (outcome_state r) = allSignalConfigs st @ [cfg]
     \<and> \<not> loading (outcome_state r)"
proof -
  obtain loc0 st0 where s0: "sendMessage_begin td now st = (loc0, st0)" by fastforce
  then have loc0: "loc0 = \<lparr>tempUserMsgId = now, tempAssistantMsgId = now + 1,
            sentConversationId = currentConversationId st,
            decoder = dec_init td, buffer = [], finalContent = [], finalSignalConfigs = [],
            finalConversationId = None, finalMessageId = None, currentEventType = []\<rparr>"
    and st0: "messages st0 = messages st @
         [\<lparr>msg_id = now, role = User, content = Some (trim (userInput st)), signal_configs = None,
           isStreaming = None, statusText = None, analysisLog = None\<rparr>,
          \<lparr>msg_id = now + 1, role = Assistant, content = Some [], signal_configs = None,
           isStreaming = Some True, statusText = Some ''Connecting...'', analysisLog = None\<rparr>]"
    and cfgs0: "allSignalConfigs st0 = allSignalConfigs st"
    by (auto simp add: sendMessage_begin_def Let_def)
  have ids: "tempAssistantMsgId loc0 = now + 1" "buffer loc0 = []" "decoder loc0 = dec_init td"
    by (simp_all add: loc0)
  obtain d' where dec: "decode (dec_step td) (decoder (fst (loc0, st0))) (concat chunks)
      = (d', join_lines (sse_record ''status'' d1 @ sse_record ''content'' d2 @ sse_record ''done'' d3))"
    using bytes by (cases "decode (dec_step td) (dec_init td) (concat chunks)") (simp add: ids)
  have lines: "list_all newline_free (sse_record ''status'' d1 @ sse_record ''content'' d2 @ sse_record ''done'' d3)"
    using nl by (simp add: record_lines_newline_free newline_free_def)
  have loop: "decode_loop td parse (loc0, st0) chunks
      = set_db d' [] (foldl (process_line parse) (loc0, st0)
          (sse_record ''status'' d1 @ sse_record ''content'' d2 @ sse_record ''done'' d3))"
    by (rule decode_loop_lines [OF dec lines]) (simp add: ids)
  define st1 where "st1 = update_message (now + 1) (\<lambda>m. m\<lparr>statusText := Some ''A''\<rparr>) st0"
  define st2 where "st2 = update_message (now + 1) (\<lambda>m. m\<lparr>content := Some ''hello'', statusText := None\<rparr>) st1"
  define loc3 where "loc3 = loc0\<lparr>finalContent := ''hello'', finalSignalConfigs := [cfg],
              finalConversationId := Some 7, finalMessageId := Some 42, currentEventType := []\<rparr>"
  have r1: "foldl (process_line parse) (loc0, st0) (sse_record ''status'' d1)
      = (loc0\<lparr>currentEventType := []\<rparr>, st1)"
    by (simp add: process_record p1 trim_event_names handle_status st1_def ids)
  have r2: "foldl (process_line parse) (loc0\<lparr>currentEventType := []\<rparr>, st1) (sse_record ''content'' d2)
      = (loc0\<lparr>finalContent := ''hello'', currentEventType := []\<rparr>, st2)"
    by (simp add: process_record p2 trim_event_names handle_content st2_def ids)
  have r3: "foldl (process_line parse) (loc0\<lparr>finalContent := ''hello'', currentEventType := []\<rparr>, st2)
                (sse_record ''done'' d3)
      = (loc3, st2)"
    by (simp add: process_record p3 trim_event_names handle_done onUpdate_def truthy_num_def loc3_def)
  have final: "decode_loop td parse (loc0, st0) chunks = (loc3\<lparr>decoder := d', buffer := []\<rparr>, st2)"
    by (simp only: loop foldl_append r1 r2 r3 set_db_def prod.case)
  have loc3: "tempAssistantMsgId loc3 = now + 1" "finalContent loc3 = ''hello''"
    "finalSignalConfigs loc3 = [cfg]" "finalConversationId loc3 = Some 7"
    by (simp_all add: loc3_def ids)
  have r: "r = Settled (finally_block (finalize (decode_loop td parse (loc0, st0) chunks)))"
    using input by (simp add: r_def sendMessage_def s0 read_loop_chunks)
  have msgs: "messages st2 = map (\<lambda>m. if msg_id m = now + 1 then m\<lparr>content := Some ''hello'', statusText := None\<rparr> else m)
                (messages st) @
         [\<lparr>msg_id = now, role = User, content = Some (trim (userInput st)), signal_configs = None,
           isStreaming = None, statusText = None, analysisLog = None\<rparr>,
          \<lparr>msg_id = now + 1, role = Assistant, content = Some ''hello'', signal_configs = None,
           isStreaming = Some True, statusText = None, analysisLog = None\<rparr>]"
    by (simp add: st2_def st1_def update_message_def st0 comp_def cong: if_cong)
  have cfgs2: "allSignalConfigs st2 = allSignalConfigs st"
    by (simp add: st2_def st1_def update_message_def cfgs0)
  have "is_settled r" by (simp add: r is_settled_def)
  moreover have "last (messages (outcome_state r)) =
         \<lparr>msg_id = now + 1, role = Assistant, content = Some ''hello'', signal_configs = Some [cfg],
          isStreaming = Some False, statusText = None, analysisLog = None\<rparr>"
    by (simp add: r final outcome_state_def finally_block_def finalize_def
        update_message_def msgs loc3 Let_def)
  moreover have "allSignalConfigs (outcome_state r) = allSignalConfigs st @ [cfg]"
    by (simp add: r final outcome_state_def finally_block_def finalize_def
        update_message_def cfgs2 loc3 Let_def)
  moreover have "\<not> loading (outcome_state r)"
    by (simp add: r outcome_state_def finally_block_def)
  ultimately show ?thesis by simp
qed

theorem example_stream_final_state_witness:
  "last (messages (outcome_state (sendMessage utf8_low sample_parse 1000
           (Response True (Some (map Chunk example_chunks @ [Done]))) ready_session)))
     = \<lparr>msg_id = 1001, role = Assistant, content = Some ''hello'',
        signal_configs = Some [sample_signal ''Alpha''], isStreaming = Some False,
        statusText = None, analysisLog = None\<rparr>
   \<and> allSignalConfigs (outcome_state (sendMessage utf8_low sample_parse 1000
           (Response True (Some (map Chunk example_chunks @ [Done]))) ready_session))
     = [sample_signal ''Alpha'']"
proof -
  have bytes: "snd (decode (dec_step utf8_low) (dec_init utf8_low) (concat example_chunks))
      = join_lines (sse_record ''status'' status_json @ sse_record ''content'' content_json
                    @ sse_record ''done'' done_json)"
    using ascii_decode [OF example_lines_ascii]
    by (simp add: example_chunks_def utf8_low_def example_lines_def)
  show ?thesis
    using example_stream_final_state [of ready_session sample_parse status_json _ content_json _ done_json _
        "sample_signal ''Alpha''" utf8_low example_chunks 1000,
        OF ready_session_input sample_parse_simps(1) _ sample_parse_simps(2) _ sample_parse_simps(3)
          _ _ _ _ sample_texts_newline_free(1,2,3) bytes]
    by (simp add: empty_payload_def ready_session_def initial_session_def)
qed

section \<open>What a stream event can change\<close>

lemma touches_only_refl: "touches_only a ms ms"
  by (simp add: touches_only_def msg_step_def list_all2_same)

lemma msg_step_trans: "msg_step a m m' \<Longrightarrow> msg_step a m' m'' \<Longrightarrow> msg_step a m m''"
  by (auto simp add: msg_step_def)

lemma touches_only_trans:
  "touches_only a ms ms' \<Longrightarrow> touches_only a ms' ms'' \<Longrightarrow> touches_only a ms ms''"
  unfolding touches_only_def
  by (erule (1) list_all2_trans [rotated]) (rule msg_step_trans)

lemma touches_only_update:
  assumes "\<And>m. msg_id (g m) = msg_id m \<and> role (g m) = role m \<and> isStreaming (g m) = isStreaming m"
  shows "touches_only a (messages st) (messages (update_message a g st))"
  using assms
  by (simp add: touches_only_def update_message_def list_all2_map2 list_all2_same msg_step_def)

lemma stream_step_refl: "stream_step s s"
  by (simp add: stream_step_def touches_only_refl)

lemma stream_step_trans: "stream_step s s' \<Longrightarrow> stream_step s' s'' \<Longrightarrow> stream_step s s''"
  by (auto simp add: stream_step_def intro: touches_only_trans)

lemma onUpdate_ids:
  "tempUserMsgId (onUpdate u loc) = tempUserMsgId loc"
  "tempAssistantMsgId (onUpdate u loc) = tempAssistantMsgId loc"
  "sentConversationId (onUpdate u loc) = sentConversationId loc"
  by (simp_all add: onUpdate_def Let_def split: option.splits)

lemma update_message_loading: "loading (update_message a g st) = loading st"
  by (simp add: update_message_def)

lemma handleSSEEvent_step:
  "stream_step (loc, st) (handleSSEEvent et data (tempAssistantMsgId loc) onUpdate (loc, st))"
  unfolding handleSSEEvent_def stream_step_def
  by (simp add: onUpdate_ids update_message_loading touches_only_update touches_only_refl
      toast_error_def Let_def split: option.splits)

lemma process_line_step: "stream_step s (process_line parse s line)"
proof (cases s)
  case (Pair loc st)
  have cet: "stream_step (loc, st) (loc\<lparr>currentEventType := t\<rparr>, st)" for t
    by (simp add: stream_step_def touches_only_refl)
  have ev: "stream_step (loc, st) (case handleSSEEvent et data (tempAssistantMsgId loc) onUpdate (loc, st) of
              (loc', st') \<Rightarrow> (loc'\<lparr>currentEventType := []\<rparr>, st'))" for et data
  proof (cases "handleSSEEvent et data (tempAssistantMsgId loc) onUpdate (loc, st)")
    case (Pair loc' st')
    with handleSSEEvent_step [of loc st et data] show ?thesis
      by (simp add: stream_step_def)
  qed
  show ?thesis
    unfolding Pair process_line_def
    by (simp add: cet ev stream_step_refl split: option.splits)
qed

lemma foldl_process_line_step: "stream_step s (foldl (process_line parse) s ls)"
proof (induction ls arbitrary: s)
  case Nil
  show ?case by (simp add: stream_step_refl)
next
  case (Cons l ls)
  show ?case
    using stream_step_trans [OF process_line_step Cons.IH] by simp
qed

lemma set_db_step: "stream_step s s' \<Longrightarrow> stream_step s (set_db d b s')"
  by (cases s') (simp add: stream_step_def set_db_def)

lemma read_chunk_step: "stream_step s (read_chunk td parse s v)"
  by (simp add: read_chunk_alt set_db_step foldl_process_line_step split: prod.splits)

lemma decode_loop_step: "stream_step s (decode_loop td parse s chunks)"
proof (induction chunks arbitrary: s)
  case Nil
  show ?case by (simp add: decode_loop_def stream_step_refl)
next
  case (Cons c cs)
  show ?case
    using stream_step_trans [OF read_chunk_step Cons.IH [unfolded decode_loop_def]]
    by (simp add: decode_loop_def)
qed

lemma touches_only_filter:
  "touches_only a ms ms' \<Longrightarrow>
   filter (\<lambda>m. msg_id m \<noteq> u \<and> msg_id m \<noteq> a) ms' = filter (\<lambda>m. msg_id m \<noteq> u \<and> msg_id m \<noteq> a) ms"
  unfolding touches_only_def
  by (induction ms ms' rule: list_all2_induct) (auto simp add: msg_step_def)

section \<open>Failure of the request\<close>

lemma read_loop_failure:
  assumes "reads_fail reads"
  shows "\<exists>s'. read_loop td parse s reads = Settled (finally_block (on_failure s')) \<and> stream_step s s'"
  using assms
proof (induction reads arbitrary: s)
  case Nil
  then show ?case by simp
next
  case (Cons x reads)
  show ?case
  proof (cases x)
    case (Chunk v)
    with Cons.prems have "reads_fail reads" by simp
    from Cons.IH [OF this, of "read_chunk td parse s v"]
    obtain s' where "read_loop td parse (read_chunk td parse s v) reads = Settled (finally_block (on_failure s'))"
      and "stream_step (read_chunk td parse s v) s'" by blast
    with Chunk show ?thesis
      using stream_step_trans [OF read_chunk_step] by fastforce
  next
    case Done
    with Cons.prems show ?thesis by simp
  next
    case ReadError
    then show ?thesis using stream_step_refl by fastforce
  qed
qed

lemma sendMessage_failure:
  assumes "trim (userInput st) \<noteq> []" and "truthy_num (selectedAccountId st)" and "request_fails fetched"
  shows "\<exists>s'. sendMessage td parse now fetched st = Settled (finally_block (on_failure s'))
             \<and> stream_step (sendMessage_begin td now st) s'"
proof (cases fetched)
  case FetchRejected
  with assms show ?thesis using stream_step_refl by (fastforce simp add: sendMessage_def Let_def)
next
  case (Response ok body)
  show ?thesis
  proof (cases "ok \<and> body \<noteq> None")
    case True
    then obtain reads where body: "body = Some reads" by auto
    with assms Response True have "reads_fail reads" by (simp add: request_fails_def)
    from read_loop_failure [OF this, of td parse "sendMessage_begin td now st"] assms Response True body
    show ?thesis by (simp add: sendMessage_def Let_def)
  next
    case False
    with assms Response
    have "sendMessage td parse now fetched st
          = Settled (finally_block (on_failure (sendMessage_begin td now st)))"
      by (cases body) (auto simp add: sendMessage_def Let_def)
    then show ?thesis using stream_step_refl by blast
  qed
qed

lemma on_failure_result:
  assumes "stream_step (sendMessage_begin td now st) s'"
  shows "messages (finally_block (on_failure s'))
           = filter (\<lambda>m. msg_id m \<noteq> now \<and> msg_id m \<noteq> now + 1) (messages st)"
    and "toasts (finally_block (on_failure s')) = toasts (snd s') @ [''Failed to send message'']"
    and "\<not> loading (finally_block (on_failure s'))"
proof -
  obtain loc0 st0 where s0: "sendMessage_begin td now st = (loc0, st0)" by fastforce
  then have ids: "tempUserMsgId loc0 = now" "tempAssistantMsgId loc0 = now + 1"
    and st0: "messages st0 = messages st @
         [\<lparr>msg_id = now, role = User, content = Some (trim (userInput st)), signal_configs = None,
           isStreaming = None, statusText = None, analysisLog = None\<rparr>,
          \<lparr>msg_id = now + 1, role = Assistant, content = Some [], signal_configs = None,
           isStreaming = Some True, statusText = Some ''Connecting...'', analysisLog = None\<rparr>]"
    by (auto simp add: sendMessage_begin_def Let_def)
  obtain loc' st' where s': "s' = (loc', st')" by fastforce
  from assms have ids': "tempUserMsgId loc' = now" "tempAssistantMsgId loc' = now + 1"
    and t: "touches_only (now + 1) (messages st0) (messages st')"
    by (simp_all add: stream_step_def s0 s' ids)
  have "filter (\<lambda>m. msg_id m \<noteq> now \<and> msg_id m \<noteq> now + 1) (messages st')
      = filter (\<lambda>m. msg_id m \<noteq> now \<and> msg_id m \<noteq> now + 1) (messages st0)"
    by (rule touches_only_filter [OF t])
  also have "\<dots> = filter (\<lambda>m. msg_id m \<noteq> now \<and> msg_id m \<noteq> now + 1) (messages st)"
    by (simp add: st0)
  finally show "messages (finally_block (on_failure s'))
           = filter (\<lambda>m. msg_id m \<noteq> now \<and> msg_id m \<noteq> now + 1) (messages st)"
    by (simp add: s' on_failure_def finally_block_def toast_error_def ids' Let_def)
  show "toasts (finally_block (on_failure s')) = toasts (snd s') @ [''Failed to send message'']"
    by (simp add: s' on_failure_def finally_block_def toast_error_def Let_def)
  show "\<not> loading (finally_block (on_failure s'))"
    by (simp add: finally_block_def)
qed

text \<open>
  Claim C4. When the request fails (the fetch rejects, the response is not ok, it has
  no body, or a read of the stream rejects, also after events were applied),
  \<open>sendMessage\<close> returns with both temporary messages removed: the list is the list
  from before the send without the messages that carry one of the two temporary ids,
  which is the list from before the send when these ids, taken from the clock, are
  new. The error toast is raised last and \<open>loading\<close> is off.
\<close>

theorem failed_request_discards_temporary_messages:
  fixes td :: "'d TextDecoder" and parse :: json_parse and now :: int
    and fetched :: fetch_result and st :: session
  defines "r \<equiv> sendMessage td parse now fetched st"
  assumes "trim (userInput st) \<noteq> []" and "truthy_num (selectedAccountId st)" and "request_fails fetched"
  shows "is_settled r
     \<and> messages (outcome_state r) = filter (\<lambda>m. msg_id m \<noteq> now \<and> msg_id m \<noteq> now + 1) (messages st)
     \<and> (list_all (\<lambda>m. msg_id m \<noteq> now \<and> msg_id m \<noteq> now + 1) (messages st)
          \<longrightarrow> messages (outcome_state r) = messages st)
     \<and> list_all (\<lambda>m. msg_id m \<noteq> now \<and> msg_id m \<noteq> now + 1) (messages (outcome_state r))
     \<and> toasts (outcome_state r) \<noteq> [] \<and> last (toasts (outcome_state r)) = ''Failed to send message''
     \<and> \<not> loading (outcome_state r)"
proof -
  from sendMessage_failure [OF assms(2-4), of td parse now]
  obtain s' where r: "r = Settled (finally_block (on_failure s'))"
    and step: "stream_step (sendMessage_begin td now st) s'"
    unfolding r_def by blast
  note res = on_failure_result [OF step]
  have "list_all (\<lambda>m. msg_id m \<noteq> now \<and> msg_id m \<noteq> now + 1) (messages st)
          \<longrightarrow> filter (\<lambda>m. msg_id m \<noteq> now \<and> msg_id m \<noteq> now + 1) (messages st) = messages st"
    by (simp add: list_all_iff)
  moreover have "list_all (\<lambda>m. msg_id m \<noteq> now \<and> msg_id m \<noteq> now + 1)
      (filter (\<lambda>m. msg_id m \<noteq> now \<and> msg_id m \<noteq> now + 1) (messages st))"
    by (simp add: list_all_iff)
  ultimately show ?thesis
    by (simp add: r is_settled_def outcome_state_def res)
qed

theorem failed_request_discards_temporary_messages_witness:
  "messages (outcome_state (sendMessage utf8_low sample_parse 1000 (Response True (Some failing_reads))
      session_with_history)) = messages session_with_history
   \<and> last (toasts (outcome_state (sendMessage utf8_low sample_parse 1000 (Response True (Some failing_reads))
      session_with_history))) = ''Failed to send message''"
proof -
  have input: "trim (userInput session_with_history) \<noteq> []"
    "truthy_num (selectedAccountId session_with_history)"
    using ready_session_input by (simp_all add: session_with_history_def)
  have fails: "request_fails (Response True (Some failing_reads))"
    by (simp add: request_fails_def failing_reads_def)
  show ?thesis
    using failed_request_discards_temporary_messages [OF input fails, of utf8_low sample_parse 1000]
    by (simp add: session_with_history_def)
qed

section \<open>The streaming message\<close>

lemma touches_only_flagged_count:
  "touches_only a ms ms' \<Longrightarrow> length (filter flagged ms') = length (filter flagged ms)"
  unfolding touches_only_def
  by (induction ms ms' rule: list_all2_induct) (auto simp add: msg_step_def flagged_def)

lemma touches_only_flagged_ids:
  "touches_only a ms ms' \<Longrightarrow>
   list_all (\<lambda>m. msg_id m = b \<and> role m = Assistant) (filter flagged ms')
     = list_all (\<lambda>m. msg_id m = b \<and> role m = Assistant) (filter flagged ms)"
  unfolding touches_only_def
  by (induction ms ms' rule: list_all2_induct) (auto simp add: msg_step_def flagged_def)

lemma unflag_all:
  assumes "list_all (\<lambda>m. msg_id m = a \<and> role m = Assistant) (filter flagged ms)"
    and "\<And>m. \<not> flagged (g m)"
  shows "filter flagged (map (\<lambda>m. if msg_id m = a then g m else m) ms) = []"
  using assms(1) by (induction ms) (auto simp add: assms(2) split: if_splits)

lemma remove_all_flagged:
  assumes "list_all (\<lambda>m. msg_id m = a \<and> role m = Assistant) (filter flagged ms)"
  shows "filter flagged (filter (\<lambda>m. msg_id m \<noteq> u \<and> msg_id m \<noteq> a) ms) = []"
  using assms by (induction ms) (auto split: if_splits)

lemma loaded_not_flagged: "list_all (\<lambda>m. isStreaming m = None) ms \<Longrightarrow> filter flagged ms = []"
  by (induction ms) (auto simp add: flagged_def)

lemma finalize_messages:
  "messages (finally_block (finalize (loc, st))) =
     map (\<lambda>m. if msg_id m = tempAssistantMsgId loc
               then m\<lparr>content := Some (finalContent loc), signal_configs := Some (finalSignalConfigs loc),
                      isStreaming := Some False, statusText := None\<rparr>
               else m) (messages st)"
  by (simp add: finalize_def finally_block_def update_message_def Let_def)

lemma on_failure_messages:
  "messages (finally_block (on_failure (loc, st))) =
     filter (\<lambda>m. msg_id m \<noteq> tempUserMsgId loc \<and> msg_id m \<noteq> tempAssistantMsgId loc) (messages st)"
  by (simp add: on_failure_def finally_block_def toast_error_def Let_def)

lemma reachable_inv: "reachable td parse s \<Longrightarrow> session_inv s"
proof (induction rule: reachable.induct)
  case init
  show ?case by (simp add: session_inv_def initial_session_def)
next
  case (select_account st fl a)
  then show ?case by (simp add: session_inv_def split: option.splits)
next
  case (type_input st fl inp)
  then show ?case by (simp add: session_inv_def split: option.splits)
next
  case (select_conversation st fl c)
  then show ?case by (simp add: session_inv_def split: option.splits)
next
  case (messages_loaded st fl ms)
  from loaded_not_flagged [OF messages_loaded.hyps(2)] messages_loaded.IH show ?case
    by (simp add: session_inv_def loadMessages_def split: option.splits)
next
  case (messages_missing st fl)
  then show ?case by (simp add: session_inv_def loadMessages_def split: option.splits)
next
  case (new_conversation st fl)
  then show ?case by (simp add: session_inv_def startNewConversation_def split: option.splits)
next
  case (send st fl now loc st')
  from send.IH send.hyps(2) have none: "filter flagged (messages st) = []"
    by (simp add: session_inv_def split: option.splits)
  from send.hyps(5) have "loading st'" "tempUserMsgId loc + 1 = tempAssistantMsgId loc"
    "tempAssistantMsgId loc = now + 1"
    "messages st' = messages st @
         [\<lparr>msg_id = now, role = User, content = Some (trim (userInput st)), signal_configs = None,
           isStreaming = None, statusText = None, analysisLog = None\<rparr>,
          \<lparr>msg_id = now + 1, role = Assistant, content = Some [], signal_configs = None,
           isStreaming = Some True, statusText = Some ''Connecting...'', analysisLog = None\<rparr>]"
    by (auto simp add: sendMessage_begin_def Let_def)
  with none show ?case by (simp add: session_inv_def flagged_def)
next
  case (chunk st loc v loc' st')
  from read_chunk_step [of "(loc, st)" td parse v] chunk.hyps(2)
  have step: "stream_step (loc, st) (loc', st')" by simp
  then have t: "touches_only (tempAssistantMsgId loc) (messages st) (messages st')"
    and ids: "tempUserMsgId loc' = tempUserMsgId loc" "tempAssistantMsgId loc' = tempAssistantMsgId loc"
    and l: "loading st' = loading st"
    by (simp_all add: stream_step_def)
  from chunk.IH have "loading st" and a: "tempUserMsgId loc + 1 = tempAssistantMsgId loc"
    and c: "length (filter flagged (messages st)) \<le> 1"
    and i: "list_all (\<lambda>m. msg_id m = tempAssistantMsgId loc \<and> role m = Assistant)
              (filter flagged (messages st))"
    by (auto simp add: session_inv_def)
  have "loading st'" using \<open>loading st\<close> by (simp add: l)
  moreover have "tempUserMsgId loc' + 1 = tempAssistantMsgId loc'" by (simp only: ids a)
  moreover have "length (filter flagged (messages st')) \<le> 1"
    by (simp only: touches_only_flagged_count [OF t] c)
  moreover have "list_all (\<lambda>m. msg_id m = tempAssistantMsgId loc' \<and> role m = Assistant)
              (filter flagged (messages st'))"
    by (simp only: ids touches_only_flagged_ids [OF t] i)
  ultimately show ?case by (simp add: session_inv_def)
next
  case (stream_end st loc)
  then have "list_all (\<lambda>m. msg_id m = tempAssistantMsgId loc \<and> role m = Assistant)
      (filter flagged (messages st))"
    by (simp add: session_inv_def)
  then have "filter flagged (messages (finally_block (finalize (loc, st)))) = []"
    unfolding finalize_messages by (rule unflag_all) (simp add: flagged_def)
  then show ?case by (simp add: session_inv_def finally_block_def)
next
  case (failure st loc)
  then have "list_all (\<lambda>m. msg_id m = tempAssistantMsgId loc \<and> role m = Assistant)
      (filter flagged (messages st))"
    by (simp add: session_inv_def)
  then have "filter flagged (messages (finally_block (on_failure (loc, st)))) = []"
    unfolding on_failure_messages by (rule remove_all_flagged)
  then show ?case by (simp add: session_inv_def finally_block_def)
qed

lemma streaming_flagged: "filter streaming ms = filter (\<lambda>m. role m = Assistant) (filter flagged ms)"
  by (induction ms) (auto simp add: streaming_def flagged_def)

text \<open>
  Claim C8. In every reachable state at most one assistant message is marked as
  streaming. While no run is in flight there is none; while a run is in flight its
  placeholder id is its user-message id plus one and every streaming message has that
  id. An event, and so a whole chunk of the stream, keeps the ids of the run and
  changes no message with another id.
\<close>

theorem at_most_one_streaming_message:
  assumes "reachable td parse (st, fl)"
  shows "length (filter streaming (messages st)) \<le> 1
     \<and> (case fl of
          None \<Rightarrow> filter streaming (messages st) = []
        | Some loc \<Rightarrow> tempAssistantMsgId loc = tempUserMsgId loc + 1
            \<and> list_all (\<lambda>m. msg_id m = tempAssistantMsgId loc) (filter streaming (messages st)))
     \<and> stream_step (loc, st') (handleSSEEvent et data (tempAssistantMsgId loc) onUpdate (loc, st'))
     \<and> stream_step (loc, st') (read_chunk td parse (loc, st') v)"
proof -
  from reachable_inv [OF assms] have inv: "session_inv (st, fl)" .
  have le: "length (filter streaming (messages st)) \<le> length (filter flagged (messages st))"
    by (simp only: streaming_flagged length_filter_le)
  have count: "length (filter flagged (messages st)) \<le> 1"
    using inv by (cases fl) (simp_all add: session_inv_def)
  have "case fl of
          None \<Rightarrow> filter streaming (messages st) = []
        | Some loc \<Rightarrow> tempAssistantMsgId loc = tempUserMsgId loc + 1
            \<and> list_all (\<lambda>m. msg_id m = tempAssistantMsgId loc) (filter streaming (messages st))"
    using inv by (cases fl) (auto simp add: session_inv_def streaming_flagged list_all_iff)
  with le count show ?thesis
    using handleSSEEvent_step [of loc st' et data] read_chunk_step [of "(loc, st')" td parse v]
    by simp
qed

theorem at_most_one_streaming_message_witness:
  "reachable utf8_low sample_parse
     (snd (sendMessage_begin utf8_low 1000 ready_session), Some (fst (sendMessage_begin utf8_low 1000 ready_session)))
   \<and> length (filter streaming (messages (snd (sendMessage_begin utf8_low 1000 ready_session)))) = 1
   \<and> tempAssistantMsgId (fst (sendMessage_begin utf8_low 1000 ready_session)) = 1001"
proof -
  have "reachable utf8_low sample_parse (ready_session, None)"
    unfolding ready_session_def
    by (intro reachable.type_input reachable.select_account reachable.init)
       (simp add: initial_session_def)
  then have r: "reachable utf8_low sample_parse
     (snd (sendMessage_begin utf8_low 1000 ready_session), Some (fst (sendMessage_begin utf8_low 1000 ready_session)))"
    by (rule reachable.send [where now = 1000])
       (simp_all add: ready_session_input, simp add: ready_session_def initial_session_def)
  from at_most_one_streaming_message [OF r] r show ?thesis
    by (simp add: sendMessage_begin_def Let_def streaming_def ready_session_def initial_session_def)
qed

end
